theory Spec2Isabelle
  imports Main "HOL-Library.AList"
begin

section \<open>The symbol table of Spyglass: data model\<close>

text \<open>
  The development embeds \<^verbatim>\<open>packages/core/src/symbol/SymbolUtil.ts\<close>.

  A \<^verbatim>\<open>Symbol\<close> of the source is a JavaScript object that is reached in two ways: through
  the \<^verbatim>\<open>SymbolMap\<close> that owns it (a table slot or the \<^verbatim>\<open>members\<close> of its parent), and
  through \<^verbatim>\<open>relations.aliasOf\<close> of any other symbol, by reference. The embedding
  therefore splits the object in two. Its identity and its \<^verbatim>\<open>members\<close> form the owning
  tree (\<open>Symbol\<close>, \<open>SymbolMap\<close>, \<open>SymbolTable\<close>); every other field lives in a cell
  of an object store, addressed by the identity, so that a write through an alias
  reference is seen by every holder of the symbol. Maps are association lists in the
  enumeration order of \<^verbatim>\<open>Object.keys\<close>.
\<close>

datatype SymbolVisibility = Block | File | Public | Restricted

datatype SymbolUsageType = Declaration | Definition | Implementation | Reference | TypeDefinition

text \<open>
  Modelled from the spec: \<^verbatim>\<open>SymbolUsageTypes\<close> of \<^verbatim>\<open>Symbol.ts\<close>, which is not among the
  sources; the usage kinds in the order the specification lists them.
\<close>

definition SymbolUsageTypes :: "SymbolUsageType list" where
  "SymbolUsageTypes = [Declaration, Definition, Implementation, Reference, TypeDefinition]"

text \<open>
  Modelled from the spec: \<^verbatim>\<open>SymbolLocation\<close> of \<^verbatim>\<open>Symbol.ts\<close>, which is not among the
  sources: the document URI, an optional range and full range, the URI-bound flag and
  the two metadata fields. The position ranges that \<^verbatim>\<open>SymbolLocation.create\<close> derives
  from the document text are left out.
\<close>

record SymbolLocation =
  uri :: string
  range' :: "(nat \<times> nat) option"
  fullRange :: "(nat \<times> nat) option"
  isUriBound :: bool
  accessType :: "nat option"
  fromDefaultLibrary :: "bool option"

text \<open>
  Modelled from the spec: \<^verbatim>\<open>SymbolMetadata\<close> of \<^verbatim>\<open>Symbol.ts\<close>, which is not among the
  sources. \<open>SymbolData\<close> is the metadata an addition may carry (description,
  relations, subcategory, visibility, visibility restriction); \<open>relations\<close> maps a
  relationship name to the identity of the related symbol. \<open>SymbolCell\<close> is a symbol
  object without its \<^verbatim>\<open>members\<close>: the metadata, the category and identifier, the alias
  count, and \<open>locations c t\<close> for the source's \<^verbatim>\<open>symbol[type]\<close>.
\<close>

record SymbolData =
  desc :: "string option"
  relations :: "(string \<times> nat) list option"
  subcategory :: "string option"
  visibility :: "SymbolVisibility option"
  visibilityRestriction :: "string list option"

record SymbolCell = SymbolData +
  category :: string
  "identifier" :: string
  aliasAmount :: "int option"
  locations :: "SymbolUsageType \<Rightarrow> SymbolLocation list option"

datatype Symbol = Sym (ref: nat) (members: "(string \<times> Symbol) list option")

type_synonym SymbolMap = "(string \<times> Symbol) list"
type_synonym SymbolTable = "(string \<times> SymbolMap) list"

text \<open>JavaScript truthiness of an object-or-null and of a number-or-undefined.\<close>

fun present :: "'a option \<Rightarrow> bool" where
  "present (Some _) = True"
| "present None = False"

fun truthyNumber :: "int option \<Rightarrow> bool" where
  "truthyNumber None = False"
| "truthyNumber (Some n) = (n \<noteq> 0)"

fun hasLength :: "'a list option \<Rightarrow> bool" where
  "hasLength None = False"
| "hasLength (Some xs) = (xs \<noteq> [])"

section \<open>Plain objects\<close>

text \<open>
  A symbol map and a symbol table are plain objects (\<^verbatim>\<open>{}\<close>). An association list holds
  the own properties of such an object, in the order in which \<^verbatim>\<open>Object.keys\<close>
  enumerates them. A read \<^verbatim>\<open>obj[key]\<close> finds an own property first; for a key that
  is not an own property it finds what every plain object inherits from
  \<^verbatim>\<open>Object.prototype\<close>, whose value is a built-in object of the runtime (a function, or
  \<^verbatim>\<open>Object.prototype\<close> itself for \<^verbatim>\<open>__proto__\<close>): a value that is truthy and not
  nullish. \<open>objectPrototypeProperties\<close> are the names of these properties.
\<close>

definition objectPrototypeProperties :: "string list" where
  "objectPrototypeProperties =
     [''constructor'', ''__defineGetter__'', ''__defineSetter__'', ''hasOwnProperty'',
      ''__lookupGetter__'', ''__lookupSetter__'', ''isPrototypeOf'', ''propertyIsEnumerable'',
      ''toString'', ''valueOf'', ''__proto__'', ''toLocaleString'']"

datatype 'a property = Own 'a | Inherited | Undefined

definition getProperty :: "(string \<times> 'a) list \<Rightarrow> string \<Rightarrow> 'a property" where
  "getProperty obj key =
     (case map_of obj key of
        Some v \<Rightarrow> Own v
      | None \<Rightarrow> if key \<in> set objectPrototypeProperties then Inherited else Undefined)"

text \<open>
  The place of a new own property in the enumeration order: the keys that are array
  indices (the canonical decimal numerals below \<open>2 ^ 32 - 1\<close>) come first, in ascending
  numeric order, and the other keys follow in the order of their creation.
\<close>

definition digitValue :: "char \<Rightarrow> int" where
  "digitValue c = int (length (takeWhile (\<lambda>d. d \<noteq> c) ''0123456789''))"

definition arrayIndex :: "string \<Rightarrow> int option" where
  "arrayIndex k =
     (let n = foldl (\<lambda>acc c. 10 * acc + digitValue c) 0 k in
      if k \<noteq> [] \<and> list_all (\<lambda>c. c \<in> set ''0123456789'') k
         \<and> (if hd k = CHR ''0'' then k = ''0'' else True) \<and> n < 4294967295
      then Some n else None)"

fun insertProperty :: "string \<Rightarrow> 'a \<Rightarrow> (string \<times> 'a) list \<Rightarrow> (string \<times> 'a) list" where
  "insertProperty k v [] = [(k, v)]"
| "insertProperty k v ((k', v') # rest) =
     (case arrayIndex k of
        None \<Rightarrow> (k', v') # insertProperty k v rest
      | Some n \<Rightarrow>
          (case arrayIndex k' of
             None \<Rightarrow> (k, v) # (k', v') # rest
           | Some n' \<Rightarrow>
               (if n' < n then (k', v') # insertProperty k v rest
                else (k, v) # (k', v') # rest)))"

section \<open>Lookup\<close>

text \<open>
  The lookup functions read own properties. They are the source's lookup for a category
  and path segments outside \<open>objectPrototypeProperties\<close>; for a name among them that is
  not an own property, the source's \<^verbatim>\<open>table[category]\<close> and \<^verbatim>\<open>map?.[path[i]]\<close> yield
  a built-in object, which the embedding does not have.
\<close>

record LookupResult =
  parentSymbol :: "Symbol option"
  map' :: "SymbolMap option"
  symbol :: "Symbol option"

text \<open>
  The loop of \<^verbatim>\<open>lookupTable\<close> over the path, from the segment at hand: \<open>ps\<close> and \<open>m\<close>
  are the loop's \<^verbatim>\<open>parentSymbol\<close> and \<^verbatim>\<open>map\<close> (the field is \<open>map'\<close> here).
\<close>

fun lookupPath :: "Symbol option \<Rightarrow> SymbolMap option \<Rightarrow> string list \<Rightarrow> LookupResult" where
  "lookupPath ps m [] = \<lparr>parentSymbol = ps, map' = m, symbol = None\<rparr>"
| "lookupPath ps m (x # xs) =
     (case (case m of None \<Rightarrow> None | Some mp \<Rightarrow> map_of mp x) of
        None \<Rightarrow>
          (if xs \<noteq> [] then \<lparr>parentSymbol = None, map' = None, symbol = None\<rparr>
           else \<lparr>parentSymbol = ps, map' = m, symbol = None\<rparr>)
      | Some s \<Rightarrow>
          (if xs = [] then \<lparr>parentSymbol = ps, map' = m, symbol = Some s\<rparr>
           else lookupPath (Some s) (members s) xs))"

definition lookupTable :: "SymbolTable \<Rightarrow> string \<Rightarrow> string list \<Rightarrow> LookupResult" where
  "lookupTable table cat path = lookupPath None (map_of table cat) path"

text \<open>
  The loop of \<^verbatim>\<open>lookupTables\<close>, over the tables from the last to the first: the
  argument list is the reversed table list.
\<close>

fun lookupTablesFrom ::
  "SymbolTable list \<Rightarrow> string \<Rightarrow> string list \<Rightarrow> Symbol option \<Rightarrow> SymbolMap option \<Rightarrow> LookupResult" where
  "lookupTablesFrom [] cat path ps m = \<lparr>parentSymbol = ps, map' = m, symbol = None\<rparr>"
| "lookupTablesFrom (table # tables) cat path ps m =
     (let result = lookupTable table cat path in
      if present (symbol result) then result
      else if ps = None \<and> m = None \<and> (present (parentSymbol result) \<or> present (map' result))
        then lookupTablesFrom tables cat path (parentSymbol result) (map' result)
        else lookupTablesFrom tables cat path ps m)"

definition lookupTables :: "SymbolTable list \<Rightarrow> string \<Rightarrow> string list \<Rightarrow> LookupResult" where
  "lookupTables tables cat path = lookupTablesFrom (rev tables) cat path None None"

section \<open>The object store and the event publisher\<close>

datatype event =
    SymbolCreated "string list" nat
  | SymbolAmended "string list" nat
  | SymbolRemoved "string list" nat
  | SymbolAliasCreated nat "string list" nat
  | SymbolAliasRemoved nat "string list" nat
  | SymbolLocationCreated "string list" nat SymbolUsageType SymbolLocation
  | SymbolLocationRemoved "string list" nat SymbolUsageType SymbolLocation

text \<open>
  \<open>heap\<close> holds the symbol objects, \<open>nextSym\<close> is the identity the next object
  literal gets, \<open>trace\<close> is the sequence of \<^verbatim>\<open>trigger\<close> calls made so far. An event
  carries the path and the identity of its symbol; the alias events carry the target's
  identity first.
\<close>

record store =
  heap :: "nat \<Rightarrow> SymbolCell"
  nextSym :: nat
  trace :: "event list"

definition aliasOf :: "SymbolCell \<Rightarrow> nat option" where
  "aliasOf c = (case relations c of None \<Rightarrow> None | Some rs \<Rightarrow> map_of rs ''aliasOf'')"

definition publish :: "event \<Rightarrow> store \<Rightarrow> store" where
  "publish ev s = s\<lparr>trace := trace s @ [ev]\<rparr>"

text \<open>
  The subscribers that the constructor of \<^verbatim>\<open>SymbolUtil\<close> registers for the two alias
  events: \<^verbatim>\<open>target.aliasAmount ??= 0; target.aliasAmount++\<close> and the guarded
  decrement.
\<close>

definition onSymbolAliasCreated :: "nat \<Rightarrow> store \<Rightarrow> store" where
  "onSymbolAliasCreated target s =
     s\<lparr>heap := (heap s)(target := (heap s target)
        \<lparr>aliasAmount := Some ((case aliasAmount (heap s target) of None \<Rightarrow> 0 | Some n \<Rightarrow> n) + 1)\<rparr>)\<rparr>"

definition onSymbolAliasRemoved :: "nat \<Rightarrow> store \<Rightarrow> store" where
  "onSymbolAliasRemoved target s =
     (case aliasAmount (heap s target) of
        None \<Rightarrow> s
      | Some n \<Rightarrow> s\<lparr>heap := (heap s)(target := (heap s target)\<lparr>aliasAmount := Some (n - 1)\<rparr>)\<rparr>)"

text \<open>
  Modelled from the spec: \<^verbatim>\<open>EventPublisherImpl\<close> of \<^verbatim>\<open>service/EventPublisher\<close>, which is
  not among the sources; an in-process channel whose \<^verbatim>\<open>trigger\<close> runs the subscribers
  of the event before it returns. The only subscribers are the three of the
  constructor: the one for \<^verbatim>\<open>symbolRemoved\<close> triggers \<^verbatim>\<open>symbolAliasRemoved\<close> when the
  removed symbol has an alias target.
\<close>

fun trigger :: "event \<Rightarrow> store \<Rightarrow> store" where
  "trigger (SymbolAliasCreated target path a) s =
     onSymbolAliasCreated target (publish (SymbolAliasCreated target path a) s)"
| "trigger (SymbolAliasRemoved target path a) s =
     onSymbolAliasRemoved target (publish (SymbolAliasRemoved target path a) s)"
| "trigger (SymbolRemoved path a) s =
     (let s1 = publish (SymbolRemoved path a) s in
      case aliasOf (heap s1 a) of
        None \<Rightarrow> s1
      | Some target \<Rightarrow> onSymbolAliasRemoved target (publish (SymbolAliasRemoved target path a) s1))"
| "trigger ev s = publish ev s"

section \<open>Entering symbols\<close>

text \<open>
  The values that are thrown: the two errors of the source, \<open>TypeError\<close> for the error
  that \<^verbatim>\<open>JSON.stringify\<close> throws, and the values that a callback may throw.
  \<open>Raised v\<close> is a value that \<^verbatim>\<open>JSON.stringify\<close> turns into text;
  \<open>Unserialisable v e\<close> is a value for which \<^verbatim>\<open>JSON.stringify\<close> throws \<open>e\<close> (a
  \<open>TypeError\<close> for a circular structure or a \<^verbatim>\<open>BigInt\<close>, or what a \<^verbatim>\<open>toJSON\<close> method
  of the value throws).
\<close>

datatype error =
    CannotChangeVisibility "SymbolVisibility option" SymbolVisibility
  | UnableToPopBlock
  | TypeError string
  | Raised string
  | Unserialisable string error

datatype 'a outcome = Return 'a | Throw error

text \<open>
  The usage of an addition: \<open>usageNode\<close> is the range of the syntax node when the usage
  is given by a node, \<open>usageRange\<close> the raw range otherwise.
\<close>

record SymbolAdditionUsage =
  usageType :: "SymbolUsageType option"
  usageRange :: "(nat \<times> nat) option"
  usageNode :: "(nat \<times> nat) option"
  usageFullRange :: "(nat \<times> nat) option"
  usageAccessType :: "nat option"
  usageFromDefaultLibrary :: "bool option"

record SymbolAddition =
  data :: "SymbolData option"
  usage :: "SymbolAdditionUsage option"

text \<open>
  \<^verbatim>\<open>getTable\<close> chooses the table a symbol of a given visibility is stored in; the three
  outcomes of its switch are the storage tiers of the specification. A \<^verbatim>\<open>SymbolStack\<close>
  has at least one frame; on an empty array the source reads \<^verbatim>\<open>undefined\<close>, which is
  \<open>None\<close> here.
\<close>

datatype tier = InnermostFrame | FileFrame | GlobalTable

fun storageTier :: "SymbolVisibility option \<Rightarrow> tier" where
  "storageTier (Some Block) = InnermostFrame"
| "storageTier (Some File) = FileFrame"
| "storageTier _ = GlobalTable"

definition getTable ::
  "SymbolTable list \<Rightarrow> SymbolTable \<Rightarrow> SymbolVisibility option \<Rightarrow> SymbolTable option" where
  "getTable stack global v =
     (case storageTier v of
        InnermostFrame \<Rightarrow> (if stack = [] then None else Some (last stack))
      | FileFrame \<Rightarrow> (if stack = [] then None else Some (hd stack))
      | GlobalTable \<Rightarrow> Some global)"

definition inGlobalTable :: "SymbolVisibility option \<Rightarrow> bool" where
  "inGlobalTable v = (v = None \<or> v = Some Public \<or> v = Some Restricted)"

text \<open>
  The test of \<^verbatim>\<open>amendSymbolMetadata\<close> on a new visibility \<open>v\<close> for a symbol of
  visibility \<open>old\<close>: the change is accepted when it would not move the symbol to a
  different table.
\<close>

definition visibilityChangeAccepted :: "SymbolVisibility option \<Rightarrow> SymbolVisibility \<Rightarrow> bool" where
  "visibilityChangeAccepted old v = (old = Some v \<or> (inGlobalTable old \<and> inGlobalTable (Some v)))"

text \<open>
  The loop of \<^verbatim>\<open>amendSymbolMetadata\<close> over the keys of \<^verbatim>\<open>addition.relations\<close>: \<open>rs\<close>
  is the whole relations object of the addition, the list walked is its keys, and
  \<open>amendRelation\<close> is the body of the loop for one key.
\<close>

definition amendRelation :: "string list \<Rightarrow> nat \<Rightarrow> (string \<times> nat) list \<Rightarrow> string \<Rightarrow> store \<Rightarrow> store" where
  "amendRelation path a rs relationship s =
     (let s1 =
        (if relationship = ''aliasOf'' \<and> aliasOf (heap s a) \<noteq> map_of rs ''aliasOf'' then
           (let s0 = (case aliasOf (heap s a) of
                        None \<Rightarrow> s
                      | Some old \<Rightarrow> trigger (SymbolAliasRemoved old path a) s)
            in case map_of rs ''aliasOf'' of
                 None \<Rightarrow> s0
               | Some target \<Rightarrow> trigger (SymbolAliasCreated target path a) s0)
         else s)
      in case map_of rs relationship of
           None \<Rightarrow> s1
         | Some v \<Rightarrow> s1\<lparr>heap := (heap s1)(a := (heap s1 a)
             \<lparr>relations := Some (AList.update relationship v
                 (case relations (heap s1 a) of None \<Rightarrow> [] | Some old \<Rightarrow> old))\<rparr>)\<rparr>)"

fun amendRelations :: "string list \<Rightarrow> nat \<Rightarrow> (string \<times> nat) list \<Rightarrow> string list \<Rightarrow> store \<Rightarrow> store" where
  "amendRelations path a rs [] s = s"
| "amendRelations path a rs (relationship # keys) s =
     amendRelations path a rs keys (amendRelation path a rs relationship s)"

definition amendSymbolMetadata ::
  "string list \<Rightarrow> nat \<Rightarrow> SymbolData option \<Rightarrow> store \<Rightarrow> unit outcome \<times> store" where
  "amendSymbolMetadata path a addition s =
     (case addition of
        None \<Rightarrow> (Return (), s)
      | Some ad \<Rightarrow>
         (let s1 = (case desc ad of
                      None \<Rightarrow> s
                    | Some d \<Rightarrow> s\<lparr>heap := (heap s)(a := (heap s a)\<lparr>desc := Some d\<rparr>)\<rparr>);
              s2 = (case relations ad of
                      None \<Rightarrow> s1
                    | Some rs \<Rightarrow>
                       (if rs = [] then s1
                        else amendRelations path a rs (List.map fst rs)
                          (case relations (heap s1 a) of
                             None \<Rightarrow> s1\<lparr>heap := (heap s1)(a := (heap s1 a)\<lparr>relations := Some []\<rparr>)\<rparr>
                           | Some _ \<Rightarrow> s1)));
              s3 = (case subcategory ad of
                      None \<Rightarrow> s2
                    | Some c \<Rightarrow> s2\<lparr>heap := (heap s2)(a := (heap s2 a)\<lparr>subcategory := Some c\<rparr>)\<rparr>);
              r4 = (case visibility ad of
                      None \<Rightarrow> Return s3
                    | Some v \<Rightarrow>
                       (if visibilityChangeAccepted (visibility (heap s3 a)) v
                        then Return (s3\<lparr>heap := (heap s3)(a := (heap s3 a)\<lparr>visibility := Some v\<rparr>)\<rparr>)
                        else Throw (CannotChangeVisibility (visibility (heap s3 a)) v)))
          in case r4 of
               Throw e \<Rightarrow> (Throw e, s3)
             | Return s4 \<Rightarrow>
                 (Return (),
                  (case visibilityRestriction ad of
                     None \<Rightarrow> s4
                   | Some r \<Rightarrow>
                      (if r = [] then s4
                       else s4\<lparr>heap := (heap s4)(a := (heap s4 a)\<lparr>visibilityRestriction :=
                         Some ((case visibilityRestriction (heap s4 a) of None \<Rightarrow> [] | Some old \<Rightarrow> old)
                               @ r)\<rparr>)\<rparr>)))))"

text \<open>
  Modelled from the spec: \<^verbatim>\<open>Range.get\<close> and \<^verbatim>\<open>SymbolLocation.create\<close>, which are not
  among the sources: the location of a usage is the document's URI, the range of the
  node or the raw range (\<open>[0, 0)\<close> when there is neither), the full range, the
  URI-binding flag and the two metadata fields of the usage. \<open>createLocation\<close> is the
  location as \<^verbatim>\<open>amendSymbolUsage\<close> pushes it: the ranges are deleted when the URI of the
  document does not start with \<^verbatim>\<open>file:\<close>.
\<close>

definition startsWithFile :: "string \<Rightarrow> bool" where
  "startsWithFile u = (take 5 u = ''file:'')"

definition createLocation :: "SymbolAdditionUsage \<Rightarrow> string \<Rightarrow> bool \<Rightarrow> SymbolLocation" where
  "createLocation u docUri isUriBinding =
     (let rng = (case usageNode u of
                   Some r \<Rightarrow> r
                 | None \<Rightarrow> (case usageRange u of Some r \<Rightarrow> r | None \<Rightarrow> (0, 0)));
          created = \<lparr>uri = docUri, range' = Some rng, fullRange = usageFullRange u,
                     isUriBound = isUriBinding, accessType = usageAccessType u,
                     fromDefaultLibrary = usageFromDefaultLibrary u\<rparr>
      in if startsWithFile docUri then created
         else created\<lparr>range' := None, fullRange := None\<rparr>)"

definition amendSymbolUsage ::
  "string list \<Rightarrow> nat \<Rightarrow> SymbolAdditionUsage option \<Rightarrow> string \<Rightarrow> bool \<Rightarrow> store \<Rightarrow> store" where
  "amendSymbolUsage path a addition docUri isUriBinding s =
     (case addition of
        None \<Rightarrow> s
      | Some u \<Rightarrow>
         (let type = (case usageType u of None \<Rightarrow> Reference | Some t \<Rightarrow> t);
              arr = (case locations (heap s a) type of None \<Rightarrow> [] | Some l \<Rightarrow> l);
              location = createLocation u docUri isUriBinding;
              s1 = s\<lparr>heap := (heap s)(a := (heap s a)
                      \<lparr>locations := (locations (heap s a))(type := Some (arr @ [location]))\<rparr>)\<rparr>
          in trigger (SymbolLocationCreated path a type location) s1))"

definition emptyData :: SymbolData where
  "emptyData = \<lparr>desc = None, relations = None, subcategory = None, visibility = None,
                 visibilityRestriction = None\<rparr>"

text \<open>
  \<^verbatim>\<open>createSymbol\<close>: the object literal \<^verbatim>\<open>{ category, identifier, ...enterable.data }\<close>
  is a new cell at \<open>nextSym\<close>; the usage is recorded on it before it is returned.
\<close>

definition createSymbol ::
  "string \<Rightarrow> string list \<Rightarrow> string \<Rightarrow> SymbolAddition \<Rightarrow> string \<Rightarrow> bool \<Rightarrow> store \<Rightarrow> nat \<times> store" where
  "createSymbol cat path ident enterable docUri isUriBinding s =
     (let a = nextSym s;
          d = (case data enterable of None \<Rightarrow> emptyData | Some d \<Rightarrow> d);
          ans = \<lparr>desc = desc d, relations = relations d, subcategory = subcategory d,
                 visibility = visibility d, visibilityRestriction = visibilityRestriction d,
                 category = cat, identifier = ident, aliasAmount = None,
                 locations = (\<lambda>_. None)\<rparr>;
          s1 = s\<lparr>heap := (heap s)(a := ans), nextSym := a + 1\<rparr>
      in (a, amendSymbolUsage path a (usage enterable) docUri isUriBinding s1))"

definition amendSymbol ::
  "string list \<Rightarrow> nat \<Rightarrow> SymbolAddition \<Rightarrow> string \<Rightarrow> bool \<Rightarrow> store \<Rightarrow> unit outcome \<times> store" where
  "amendSymbol path a enterable docUri isUriBinding s =
     (case amendSymbolMetadata path a (data enterable) s of
        (Throw e, s1) \<Rightarrow> (Throw e, s1)
      | (Return _, s1) \<Rightarrow> (Return (), amendSymbolUsage path a (usage enterable) docUri isUriBinding s1))"

text \<open>
  \<^verbatim>\<open>enterMap\<close> mutates the map it is given; the embedding returns the map as it is
  afterwards, beside the outcome and the store. The branch is chosen by the truthiness
  of \<^verbatim>\<open>map[identifier]\<close>. For an identifier that is not an own property of the map
  and names an inherited property, \<^verbatim>\<open>map[identifier]\<close> is a built-in object, and the
  source amends that object as if it were the symbol: the embedding, which has no
  built-in objects, ends there with \<open>None\<close>. In the other branch the new symbol becomes
  an own property of the map (\<^verbatim>\<open>map[identifier] = this.createSymbol(...)\<close>) after
  \<^verbatim>\<open>createSymbol\<close> has returned.
\<close>

definition enterMap ::
  "SymbolMap \<Rightarrow> string \<Rightarrow> string list \<Rightarrow> string \<Rightarrow> SymbolAddition \<Rightarrow> string \<Rightarrow> bool \<Rightarrow> store
     \<Rightarrow> (Symbol outcome \<times> store \<times> SymbolMap) option" where
  "enterMap m cat path ident addition docUri isUriBinding s =
     (case getProperty m ident of
        Own target \<Rightarrow>
          Some (case amendSymbol path (ref target) addition docUri isUriBinding s of
                  (Throw e, s1) \<Rightarrow> (Throw e, s1, m)
                | (Return _, s1) \<Rightarrow>
                    (Return target, trigger (SymbolAmended path (ref target)) s1, m))
      | Inherited \<Rightarrow> None
      | Undefined \<Rightarrow>
          Some (case createSymbol cat path ident addition docUri isUriBinding s of
                  (a, s1) \<Rightarrow>
                    (Return (Sym a None), trigger (SymbolCreated path a) s1,
                     insertProperty ident (Sym a None) m)))"

text \<open>
  \<^verbatim>\<open>enterTable\<close> and \<^verbatim>\<open>enterMember\<close> go through \<^verbatim>\<open>enterMapContainer\<close>, which creates the
  map of the container when it is missing (\<^verbatim>\<open>container[keyToMap] ??= {}\<close>). For a
  category that is not an own property of the table and names an inherited property,
  \<^verbatim>\<open>table[category]\<close> is a built-in object, which is not nullish, and the source
  enters into that object: the embedding ends there with \<open>None\<close>.
\<close>

definition enterTable ::
  "SymbolTable \<Rightarrow> string \<Rightarrow> string list \<Rightarrow> string \<Rightarrow> SymbolAddition \<Rightarrow> string \<Rightarrow> bool \<Rightarrow> store
     \<Rightarrow> (Symbol outcome \<times> store \<times> SymbolTable) option" where
  "enterTable table cat path ident addition docUri isUriBinding s =
     (case getProperty table cat of
        Own m \<Rightarrow>
          map_option (\<lambda>(r, s1, m1). (r, s1, AList.update cat m1 table))
            (enterMap m cat path ident addition docUri isUriBinding s)
      | Inherited \<Rightarrow> None
      | Undefined \<Rightarrow>
          map_option (\<lambda>(r, s1, m1). (r, s1, insertProperty cat m1 table))
            (enterMap [] cat path ident addition docUri isUriBinding s))"

definition enterMember ::
  "Symbol \<Rightarrow> string list \<Rightarrow> string \<Rightarrow> SymbolAddition \<Rightarrow> string \<Rightarrow> bool \<Rightarrow> store
     \<Rightarrow> (Symbol outcome \<times> store \<times> Symbol) option" where
  "enterMember parent path ident addition docUri isUriBinding s =
     map_option (\<lambda>(r, s1, m1). (r, s1, Sym (ref parent) (Some m1)))
       (enterMap (case members parent of None \<Rightarrow> [] | Some m \<Rightarrow> m)
          (category (heap s (ref parent))) path ident addition docUri isUriBinding s)"

section \<open>Trimming and partial invalidation\<close>

definition noLocations :: "SymbolCell \<Rightarrow> bool" where
  "noLocations c =
     (\<not> hasLength (locations c Declaration) \<and> \<not> hasLength (locations c Definition)
      \<and> \<not> hasLength (locations c Implementation) \<and> \<not> hasLength (locations c Reference)
      \<and> \<not> hasLength (locations c TypeDefinition))"

text \<open>
  The test of \<^verbatim>\<open>trimMap\<close> on a symbol: no location of any usage type, and a falsy
  alias count.
\<close>

definition removable :: "SymbolCell \<Rightarrow> bool" where
  "removable c = (noLocations c \<and> \<not> truthyNumber (aliasAmount c))"

text \<open>
  The direct decrement of \<^verbatim>\<open>trimMap\<close>:
  \<^verbatim>\<open>if (symbol.relations?.aliasOf && symbol.relations.aliasOf.aliasAmount !== undefined)\<close>.
\<close>

definition trimDecrement :: "nat \<Rightarrow> store \<Rightarrow> store" where
  "trimDecrement a s =
     (case aliasOf (heap s a) of
        None \<Rightarrow> s
      | Some target \<Rightarrow>
         (case aliasAmount (heap s target) of
            None \<Rightarrow> s
          | Some n \<Rightarrow> s\<lparr>heap := (heap s)(target := (heap s target)\<lparr>aliasAmount := Some (n - 1)\<rparr>)\<rparr>))"

text \<open>
  \<^verbatim>\<open>trimMap\<close>: the loop over the keys of the map, with the recursion into the members of
  a symbol that is kept. The result is the store and the map as the loop leaves them.
\<close>

fun trimMap :: "string list \<Rightarrow> SymbolMap \<Rightarrow> store \<Rightarrow> store \<times> SymbolMap" where
  "trimMap path [] s = (s, [])"
| "trimMap path ((ident, Sym a ms) # rest) s =
     (if removable (heap s a) then
        trimMap path rest (trigger (SymbolRemoved path a) (trimDecrement a s))
      else
        (case ms of
           None \<Rightarrow>
             (case trimMap path rest s of
                (s2, rest') \<Rightarrow> (s2, (ident, Sym a None) # rest'))
         | Some m \<Rightarrow>
             (case trimMap (path @ [ident]) m s of
                (s1, m') \<Rightarrow>
                  (case trimMap path rest s1 of
                     (s2, rest') \<Rightarrow>
                       (s2, (ident, Sym a (if m' = [] then None else Some m')) # rest')))))"

fun trim :: "SymbolTable \<Rightarrow> store \<Rightarrow> store \<times> SymbolTable" where
  "trim [] s = (s, [])"
| "trim ((cat, m) # rest) s =
     (case trimMap [] m s of
        (s1, m') \<Rightarrow>
          (case trim rest s1 of
             (s2, rest') \<Rightarrow> (s2, (if m' = [] then rest' else (cat, m') # rest'))))"

text \<open>
  \<^verbatim>\<open>removeLocationsFromMap\<close>: for every usage type of a symbol that has a list, the
  locations matching the predicate are published as removed and the others are kept;
  then the members are visited.
\<close>

fun removeLocationsOfTypes ::
  "(SymbolLocation \<Rightarrow> bool) \<Rightarrow> string list \<Rightarrow> nat \<Rightarrow> SymbolUsageType list \<Rightarrow> store \<Rightarrow> store" where
  "removeLocationsOfTypes predicate path a [] s = s"
| "removeLocationsOfTypes predicate path a (type # types) s =
     (case locations (heap s a) type of
        None \<Rightarrow> removeLocationsOfTypes predicate path a types s
      | Some ls \<Rightarrow>
         (let s1 = fold (\<lambda>location st.
                      if predicate location
                      then trigger (SymbolLocationRemoved path a type location) st else st) ls s;
              s2 = s1\<lparr>heap := (heap s1)(a := (heap s1 a)
                      \<lparr>locations := (locations (heap s1 a))
                          (type := Some (filter (\<lambda>location. \<not> predicate location) ls))\<rparr>)\<rparr>
          in removeLocationsOfTypes predicate path a types s2))"

fun removeLocationsFromMap ::
  "(SymbolLocation \<Rightarrow> bool) \<Rightarrow> string list \<Rightarrow> SymbolMap \<Rightarrow> store \<Rightarrow> store" where
  "removeLocationsFromMap predicate path [] s = s"
| "removeLocationsFromMap predicate path ((ident, Sym a ms) # rest) s =
     (let s1 = removeLocationsOfTypes predicate path a SymbolUsageTypes s;
          s2 = (case ms of
                  None \<Rightarrow> s1
                | Some m \<Rightarrow> removeLocationsFromMap predicate (path @ [ident]) m s1)
      in removeLocationsFromMap predicate path rest s2)"

definition removeLocations ::
  "SymbolTable \<Rightarrow> (SymbolLocation \<Rightarrow> bool) \<Rightarrow> store \<Rightarrow> store \<times> SymbolTable" where
  "removeLocations table predicate s =
     trim table (fold (\<lambda>(cat, m) st. removeLocationsFromMap predicate [] m st) table s)"

section \<open>The state of a SymbolUtil\<close>

text \<open>
  \<open>stacks\<close> is the \<^verbatim>\<open>Map\<close> from URI to stack; a stack is an array object, so the map
  holds the identity of the array and \<open>arrays\<close> its frames. \<open>logged\<close> collects the
  errors whose JSON text was handed to the logger.
\<close>

record SymbolUtil =
  objects :: store
  global :: SymbolTable
  stacks :: "(string \<times> nat) list"
  arrays :: "nat \<Rightarrow> SymbolTable list"
  nextStack :: nat
  isUriBinding :: bool
  logged :: "error list"

type_synonym callback = "SymbolUtil \<Rightarrow> unit outcome \<times> SymbolUtil"

text \<open>
  Modelled from the spec: \<^verbatim>\<open>Logger\<close> of \<^verbatim>\<open>service\<close>, which is not among the sources,
  an argument of \<^verbatim>\<open>uriBinding\<close>. A logger is given by the outcome of its method
  \<^verbatim>\<open>error\<close> on the text of a thrown value: it returns or it throws.
\<close>

type_synonym Logger = "error \<Rightarrow> unit outcome"

definition getStack :: "string \<Rightarrow> SymbolUtil \<Rightarrow> nat \<times> SymbolUtil" where
  "getStack u st =
     (case map_of (stacks st) u of
        Some sid \<Rightarrow> (sid, st)
      | None \<Rightarrow>
         (nextStack st,
          st\<lparr>stacks := stacks st @ [(u, nextStack st)],
             arrays := (arrays st)(nextStack st := [[]]),
             nextStack := nextStack st + 1\<rparr>))"

definition setStack :: "string \<Rightarrow> SymbolTable list \<Rightarrow> SymbolUtil \<Rightarrow> SymbolUtil" where
  "setStack u stack st =
     st\<lparr>stacks := AList.update u (nextStack st) (stacks st),
        arrays := (arrays st)(nextStack st := stack),
        nextStack := nextStack st + 1\<rparr>"

definition clear :: "string \<Rightarrow> SymbolUtil \<Rightarrow> SymbolUtil" where
  "clear u st =
     (case removeLocations (global st) (\<lambda>loc. \<not> isUriBound loc \<and> uri loc = u) (objects st) of
        (s1, g1) \<Rightarrow> st\<lparr>stacks := AList.delete u (stacks st), objects := s1, global := g1\<rparr>)"





text \<open>
  \<^verbatim>\<open>block\<close>: \<open>sid\<close> is the array that \<^verbatim>\<open>getStack\<close> returned before the callback ran;
  the \<^verbatim>\<open>finally\<close> clause reads and pops that array, and its error replaces the one of
  the callback.
\<close>

definition block :: "string \<Rightarrow> callback \<Rightarrow> SymbolUtil \<Rightarrow> unit outcome \<times> SymbolUtil" where
  "block u callbackFn st =
     (case getStack u st of
        (sid, st1) \<Rightarrow>
          (case callbackFn (st1\<lparr>arrays := (arrays st1)(sid := arrays st1 sid @ [[]])\<rparr>) of
             (r, st3) \<Rightarrow>
               (if length (arrays st3 sid) \<le> 1 then (Throw UnableToPopBlock, st3)
                else (r, st3\<lparr>arrays := (arrays st3)(sid := butlast (arrays st3 sid))\<rparr>))))"

text \<open>
  \<^verbatim>\<open>uriBinding\<close>: the flag is set, the URI-bound locations of the global table
  (\<^verbatim>\<open>this.global\<close>, not the stacks of the documents) are removed, and the callback
  runs inside \<^verbatim>\<open>try\<close>. The \<^verbatim>\<open>catch\<close> clause evaluates
  \<^verbatim>\<open>logger.error(JSON.stringify(e))\<close>: when \<^verbatim>\<open>JSON.stringify\<close> throws, or the logger
  does, that error leaves \<^verbatim>\<open>uriBinding\<close>. \<^verbatim>\<open>finally\<close> resets the flag on every path.
\<close>

fun jsonStringify :: "error \<Rightarrow> unit outcome" where
  "jsonStringify (Unserialisable v e) = Throw e"
| "jsonStringify _ = Return ()"

definition uriBindingEnter :: "SymbolUtil \<Rightarrow> SymbolUtil" where
  "uriBindingEnter st =
     (case removeLocations (global st) isUriBound (objects st) of
        (s1, g1) \<Rightarrow> st\<lparr>isUriBinding := True, objects := s1, global := g1\<rparr>)"

definition uriBinding :: "Logger \<Rightarrow> callback \<Rightarrow> SymbolUtil \<Rightarrow> unit outcome \<times> SymbolUtil" where
  "uriBinding logger fn st =
     (case fn (uriBindingEnter st) of
        (Return _, st3) \<Rightarrow> (Return (), st3\<lparr>isUriBinding := False\<rparr>)
      | (Throw e, st3) \<Rightarrow>
          (case jsonStringify e of
             Throw e' \<Rightarrow> (Throw e', st3\<lparr>isUriBinding := False\<rparr>)
           | Return _ \<Rightarrow>
               (logger e, st3\<lparr>logged := logged st3 @ [e], isUriBinding := False\<rparr>)))"

section \<open>Aliases\<close>

partial_function (option) resolveAlias :: "(nat \<Rightarrow> SymbolCell) \<Rightarrow> nat \<Rightarrow> nat option" where
  "resolveAlias h a =
     (case aliasOf (h a) of
        Some target \<Rightarrow> resolveAlias h target
      | None \<Rightarrow> Some a)"

section \<open>Notions of the specification\<close>

text \<open>
  \<open>aliasChain h a r\<close>: following \<^verbatim>\<open>relations.aliasOf\<close> from \<open>a\<close> ends, after finitely many
  links, at the symbol \<open>r\<close> that has no alias target. A chain that runs into a cycle has
  no such end.
\<close>

inductive aliasChain :: "(nat \<Rightarrow> SymbolCell) \<Rightarrow> nat \<Rightarrow> nat \<Rightarrow> bool" for h where
  root: "aliasOf (h a) = None \<Longrightarrow> aliasChain h a a"
| link: "aliasOf (h a) = Some target \<Longrightarrow> aliasChain h target r \<Longrightarrow> aliasChain h a r"

code_pred aliasChain .



text \<open>Cells for concrete stores: a blank one, and one whose only field is an alias target.\<close>

definition blankCell :: SymbolCell where
  "blankCell = \<lparr>desc = None, relations = None, subcategory = None, visibility = None,
     visibilityRestriction = None, category = [], identifier = [], aliasAmount = None,
     locations = (\<lambda>_. None)\<rparr>"

definition cellAliasing :: "nat option \<Rightarrow> SymbolCell" where
  "cellAliasing t =
     blankCell\<lparr>relations := (case t of None \<Rightarrow> None | Some x \<Rightarrow> Some [(''aliasOf'', x)])\<rparr>"

text \<open>
  The relations of a symbol after an addition with the non-empty relations \<open>rs\<close> was
  merged into it: every key of \<open>rs\<close> is set, the other keys stay.
\<close>

definition mergeRelations ::
  "(string \<times> nat) list \<Rightarrow> (string \<times> nat) list option \<Rightarrow> (string \<times> nat) list option" where
  "mergeRelations rs old =
     (if rs = [] then old
      else Some (fold (\<lambda>k acc. case map_of rs k of None \<Rightarrow> acc | Some v \<Rightarrow> AList.update k v acc)
                   (List.map fst rs) (case old of None \<Rightarrow> [] | Some r \<Rightarrow> r)))"

text \<open>Two cells that agree on every field but the relations and the alias count.\<close>

definition sameMetadata :: "SymbolCell \<Rightarrow> SymbolCell \<Rightarrow> bool" where
  "sameMetadata c c' =
     (desc c' = desc c \<and> subcategory c' = subcategory c \<and> visibility c' = visibility c
      \<and> visibilityRestriction c' = visibilityRestriction c \<and> locations c' = locations c
      \<and> category c' = category c \<and> identifier c' = identifier c)"

text \<open>
  The symbols present in a map, with the members of each, and in a table; the
  symbols present in the global table or in a frame of any document stack; and the
  number of present symbols whose \<^verbatim>\<open>relations.aliasOf\<close> is a given symbol.
\<close>

fun symbolsOfMap :: "SymbolMap \<Rightarrow> nat list" where
  "symbolsOfMap [] = []"
| "symbolsOfMap ((ident, Sym a ms) # rest) =
     a # (case ms of None \<Rightarrow> [] | Some m \<Rightarrow> symbolsOfMap m) @ symbolsOfMap rest"

definition symbolsOfTable :: "SymbolTable \<Rightarrow> nat list" where
  "symbolsOfTable table = concat (List.map (\<lambda>(cat, m). symbolsOfMap m) table)"

definition presentSymbols :: "SymbolUtil \<Rightarrow> nat list" where
  "presentSymbols st =
     symbolsOfTable (global st)
     @ concat (List.map (\<lambda>(u, sid). concat (List.map symbolsOfTable (arrays st sid))) (stacks st))"

definition aliasCount :: "SymbolUtil \<Rightarrow> nat \<Rightarrow> nat" where
  "aliasCount st target =
     length (filter (\<lambda>a. aliasOf (heap (objects st) a) = Some target) (presentSymbols st))"

text \<open>
  \<open>retracted predicate table s\<close>: no symbol of the table, at any depth, has a location
  that matches the predicate.
\<close>

definition cleanCell :: "(SymbolLocation \<Rightarrow> bool) \<Rightarrow> SymbolCell \<Rightarrow> bool" where
  "cleanCell predicate c =
     list_all (\<lambda>t. case locations c t of
                      None \<Rightarrow> True
                    | Some ls \<Rightarrow> list_all (\<lambda>l. \<not> predicate l) ls) SymbolUsageTypes"

definition retracted :: "(SymbolLocation \<Rightarrow> bool) \<Rightarrow> SymbolTable \<Rightarrow> store \<Rightarrow> bool" where
  "retracted predicate table s =
     list_all (\<lambda>a. cleanCell predicate (heap s a)) (symbolsOfTable table)"

text \<open>
  An order on stores for the proofs about trimming: \<open>heapLe h' h\<close> when \<open>h'\<close> differs
  from \<open>h\<close> in alias counts only, and no count of \<open>h'\<close> is greater or newly defined.
\<close>

fun amountLe :: "int option \<Rightarrow> int option \<Rightarrow> bool" where
  "amountLe None None = True"
| "amountLe (Some n') (Some n) = (n' \<le> n)"
| "amountLe _ _ = False"

definition cellLe :: "SymbolCell \<Rightarrow> SymbolCell \<Rightarrow> bool" where
  "cellLe c' c = (\<exists>v. c' = c\<lparr>aliasAmount := v\<rparr> \<and> amountLe v (aliasAmount c))"

definition heapLe :: "(nat \<Rightarrow> SymbolCell) \<Rightarrow> (nat \<Rightarrow> SymbolCell) \<Rightarrow> bool" where
  "heapLe h' h = (\<forall>x. cellLe (h' x) (h x))"

subsection \<open>Concrete states and calls\<close>

text \<open>
  A fresh \<^verbatim>\<open>SymbolUtil\<close> over an empty global table; additions without usage, with a
  usage of a given type, and with an alias target only; and \<open>enterGlobal\<close> for the call
  \<^verbatim>\<open>this.enterTable(this.global, category, [identifier], identifier, addition, doc, false)\<close>
  with a category and an identifier that no plain object inherits.
  For a symbol of public visibility that no frame of the document shadows,
  \<^verbatim>\<open>query(doc, category, identifier).enter(addition)\<close> enters into the same map of the
  global table (and creates the stack of the document besides).
\<close>

definition emptyStore :: store where
  "emptyStore = \<lparr>heap = (\<lambda>_. blankCell), nextSym = 0, trace = []\<rparr>"

definition emptyUtil :: SymbolUtil where
  "emptyUtil = \<lparr>objects = emptyStore, global = [], stacks = [], arrays = (\<lambda>_. []),
      nextStack = 0, isUriBinding = False, logged = []\<rparr>"

definition noUsage :: "SymbolAddition" where
  "noUsage = \<lparr>data = None, usage = None\<rparr>"

definition usageOf :: "SymbolUsageType \<Rightarrow> SymbolAddition" where
  "usageOf t = \<lparr>data = None,
     usage = Some \<lparr>usageType = Some t, usageRange = None, usageNode = None,
       usageFullRange = None, usageAccessType = None, usageFromDefaultLibrary = None\<rparr>\<rparr>"

definition aliasTo :: "nat \<Rightarrow> SymbolAddition" where
  "aliasTo target =
     \<lparr>data = Some (emptyData\<lparr>relations := Some [(''aliasOf'', target)]\<rparr>), usage = None\<rparr>"

definition enterGlobal ::
  "string \<Rightarrow> string \<Rightarrow> SymbolAddition \<Rightarrow> string \<Rightarrow> SymbolUtil \<Rightarrow> SymbolUtil" where
  "enterGlobal cat ident addition docUri st =
     (case enterTable (global st) cat [ident] ident addition docUri False (objects st) of
        Some (r, s1, g1) \<Rightarrow> st\<lparr>objects := s1, global := g1\<rparr>)"

text \<open>
  \<open>T\<close> is declared in one document, \<open>A\<close> is referenced in another and then made an
  alias of \<open>T\<close>.
\<close>

definition aliasEntered :: SymbolUtil where
  "aliasEntered =
     enterGlobal ''c'' ''A'' (aliasTo 0) ''file:///a''
       (enterGlobal ''c'' ''A'' (usageOf Reference) ''file:///a''
         (enterGlobal ''c'' ''T'' (usageOf Declaration) ''file:///t'' emptyUtil))"

text \<open>
  \<open>T\<close> and \<open>A\<close> are entered without usage, \<open>B\<close> with a reference; \<open>A\<close> and \<open>B\<close> are
  made aliases of \<open>T\<close>.
\<close>

definition aliasedTwice :: SymbolUtil where
  "aliasedTwice =
     enterGlobal ''c'' ''B'' (aliasTo 0) ''file:///b''
       (enterGlobal ''c'' ''B'' (usageOf Reference) ''file:///b''
         (enterGlobal ''c'' ''A'' (aliasTo 0) ''file:///a''
           (enterGlobal ''c'' ''A'' noUsage ''file:///a''
             (enterGlobal ''c'' ''T'' noUsage ''file:///t'' emptyUtil))))"

text \<open>\<open>X\<close> is entered without usage, \<open>Y\<close> with a definition; there is no alias.\<close>

definition unusedBesideUsed :: SymbolUtil where
  "unusedBesideUsed =
     enterGlobal ''c'' ''Y'' (usageOf Definition) ''file:///y''
       (enterGlobal ''c'' ''X'' noUsage ''file:///x'' emptyUtil)"

text \<open>
  A global table with \<open>U\<close>, whose only location is URI-bound, and \<open>K\<close>, whose only
  location is not.
\<close>

definition boundAndUnbound :: SymbolUtil where
  "boundAndUnbound =
     \<lparr>objects = \<lparr>heap = (\<lambda>_. blankCell)
          (0 := blankCell\<lparr>locations := (\<lambda>_. None)(Definition := Some
                 [\<lparr>uri = ''file:///u'', range' = None, fullRange = None, isUriBound = True,
                   accessType = None, fromDefaultLibrary = None\<rparr>])\<rparr>,
           1 := blankCell\<lparr>locations := (\<lambda>_. None)(Reference := Some
                 [\<lparr>uri = ''file:///k'', range' = Some (0, 1), fullRange = None, isUriBound = False,
                   accessType = None, fromDefaultLibrary = None\<rparr>])\<rparr>),
        nextSym = 2, trace = []\<rparr>,
      global = [(''c'', [(''U'', Sym 0 None), (''K'', Sym 1 None)])],
      stacks = [], arrays = (\<lambda>_. []), nextStack = 0, isUriBinding = False, logged = []\<rparr>"


text \<open>
  A document whose first frame holds \<open>F\<close>, a symbol of file visibility whose only
  location is URI-bound: the state after a URI binder has run
  \<^verbatim>\<open>query(doc, 'c', 'F').enter({ data: { visibility: SymbolVisibility.File }, usage: { type: 'definition' } })\<close>,
  which enters into the first frame of the stack of the document with the flag set.
\<close>

definition boundInFrame :: SymbolUtil where
  "boundInFrame =
     \<lparr>objects = \<lparr>heap = (\<lambda>_. blankCell)
          (0 := blankCell\<lparr>visibility := Some File, locations := (\<lambda>_. None)(Definition := Some
                 [\<lparr>uri = ''file:///d'', range' = Some (0, 0), fullRange = None,
                   isUriBound = True, accessType = None, fromDefaultLibrary = None\<rparr>])\<rparr>),
        nextSym = 1, trace = []\<rparr>,
      global = [], stacks = [(''file:///d'', 0)],
      arrays = (\<lambda>_. [])(0 := [[(''c'', [(''F'', Sym 0 None)])]]),
      nextStack = 1, isUriBinding = False, logged = []\<rparr>"

text \<open>
  A logger that returns, a callback that does nothing, and a callback that throws an
  object which refers to itself (\<^verbatim>\<open>const e = {}; e.self = e; throw e\<close>), for which
  \<^verbatim>\<open>JSON.stringify\<close> throws a \<open>TypeError\<close>.
\<close>

definition quietLogger :: Logger where
  "quietLogger e = Return ()"

definition returningCallback :: callback where
  "returningCallback st = (Return (), st)"

definition circularCallback :: callback where
  "circularCallback st =
     (Throw (Unserialisable ''e'' (TypeError ''Converting circular structure to JSON'')), st)"

text \<open>
  A document whose stack has two frames, and three callbacks: one that throws, one
  that empties the stack array of the document, one that pops a frame of it.
\<close>

definition twoFrames :: SymbolUtil where
  "twoFrames = \<lparr>objects = \<lparr>heap = (\<lambda>_. blankCell), nextSym = 0, trace = []\<rparr>,
      global = [], stacks = [(''file:///d'', 0)], arrays = (\<lambda>_. [])(0 := [[], []]),
      nextStack = 1, isUriBinding = False, logged = []\<rparr>"

definition throwingCallback :: callback where
  "throwingCallback st = (Throw (Raised ''e''), st)"

definition emptyingCallback :: callback where
  "emptyingCallback st = (Return (), st\<lparr>arrays := (arrays st)(0 := [])\<rparr>)"

definition poppingCallback :: callback where
  "poppingCallback st = (Return (), st\<lparr>arrays := (arrays st)(0 := butlast (arrays st 0))\<rparr>)"

section \<open>Lookup order\<close>

lemma lookupTablesFrom_find:
  "lookupTablesFrom ts cat path ps m =
     (case find (\<lambda>r. present (symbol r)) (List.map (\<lambda>t. lookupTable t cat path) ts) of
        Some r \<Rightarrow> r
      | None \<Rightarrow>
         (if ps = None \<and> m = None then
            (case find (\<lambda>r. present (parentSymbol r) \<or> present (map' r))
                    (List.map (\<lambda>t. lookupTable t cat path) ts) of
               Some r \<Rightarrow> \<lparr>parentSymbol = parentSymbol r, map' = map' r, symbol = None\<rparr>
             | None \<Rightarrow> \<lparr>parentSymbol = None, map' = None, symbol = None\<rparr>)
          else \<lparr>parentSymbol = ps, map' = m, symbol = None\<rparr>))"
proof (induction ts arbitrary: ps m)
  case Nil
  then show ?case by simp
next
  case (Cons t ts)
  show ?case
  proof (cases "present (symbol (lookupTable t cat path))")
    case True
    then show ?thesis by simp
  next
    case False
    then show ?thesis
      by (cases "parentSymbol (lookupTable t cat path)"; cases "map' (lookupTable t cat path)")
         (simp_all add: Cons.IH Let_def split: option.splits)
  qed
qed

text \<open>
  C2, as the code has it. \<^verbatim>\<open>lookupTables\<close> walks the tables from the most deeply nested
  to the least nested one. A table in which the leaf symbol is found wins over every
  table that only holds a part of the path: the result is the one of the innermost
  table that holds the leaf. Only when no table holds the leaf is the symbol absent, and
  then the parent symbol and the map are those of the innermost table whose own result
  has a parent symbol or a map (both are absent when there is no such table).
\<close>

theorem lookupTables_innermost_leaf_first:
  "lookupTables tables cat path =
     (case find (\<lambda>r. present (symbol r)) (List.map (\<lambda>t. lookupTable t cat path) (rev tables)) of
        Some r \<Rightarrow> r
      | None \<Rightarrow>
         (case find (\<lambda>r. present (parentSymbol r) \<or> present (map' r))
                 (List.map (\<lambda>t. lookupTable t cat path) (rev tables)) of
            Some r \<Rightarrow> \<lparr>parentSymbol = parentSymbol r, map' = map' r, symbol = None\<rparr>
          | None \<Rightarrow> \<lparr>parentSymbol = None, map' = None, symbol = None\<rparr>))"
  unfolding lookupTables_def by (simp add: lookupTablesFrom_find)

text \<open>
  C2 as stated fails: the global table holds \<open>a.b\<close>, the file frame holds \<open>a\<close> with a
  member \<open>x\<close> only. The frame is searched first and contains a part of the path (its
  result has a parent symbol and a map), yet the lookup of \<open>a.b\<close> returns the result of
  the global table.
\<close>

theorem lookupTables_first_partial_counterexample:
  "present (parentSymbol (lookupTable [(''c'', [(''a'', Sym 2 (Some [(''x'', Sym 3 None)]))])] ''c'' [''a'', ''b'']))
   \<and> lookupTables [[(''c'', [(''a'', Sym 0 (Some [(''b'', Sym 1 None)]))])],
                     [(''c'', [(''a'', Sym 2 (Some [(''x'', Sym 3 None)]))])]] ''c'' [''a'', ''b'']
       = lookupTable [(''c'', [(''a'', Sym 0 (Some [(''b'', Sym 1 None)]))])] ''c'' [''a'', ''b'']
   \<and> lookupTables [[(''c'', [(''a'', Sym 0 (Some [(''b'', Sym 1 None)]))])],
                     [(''c'', [(''a'', Sym 2 (Some [(''x'', Sym 3 None)]))])]] ''c'' [''a'', ''b'']
       \<noteq> lookupTable [(''c'', [(''a'', Sym 2 (Some [(''x'', Sym 3 None)]))])] ''c'' [''a'', ''b'']"
  by (simp add: lookupTables_def lookupTable_def)

section \<open>Visible symbols\<close>







section \<open>Alias resolution\<close>

lemma aliasChain_resolve: "aliasChain h a r \<Longrightarrow> resolveAlias h a = Some r"
  by (induction rule: aliasChain.induct) (simp_all add: resolveAlias.simps)

lemma aliasChain_root: "aliasChain h a r \<Longrightarrow> aliasOf (h r) = None"
  by (induction rule: aliasChain.induct) simp_all

lemma resolve_aliasChain:
  assumes "resolveAlias h a = Some r"
  shows "aliasChain h a r"
  using assms
proof (rule resolveAlias.raw_induct[rotated 1, where P = aliasChain])
  fix f h a r
  assume IH: "\<And>h' b y. f h' b = Some y \<Longrightarrow> aliasChain h' b y"
    and eq: "(case aliasOf (h a) of None \<Rightarrow> Some a | Some target \<Rightarrow> f h target) = Some r"
  show "aliasChain h a r"
  proof (cases "aliasOf (h a)")
    case None
    with eq show ?thesis by (simp add: aliasChain.root)
  next
    case (Some target)
    with eq have "f h target = Some r" by simp
    then have "aliasChain h target r" by (rule IH)
    with Some show ?thesis by (rule aliasChain.link)
  qed
qed

lemma no_chain_in_cycle:
  "aliasChain h a r \<Longrightarrow>
   h = (\<lambda>_. cellAliasing None)(0 := cellAliasing (Some 1), 1 := cellAliasing (Some 0)) \<Longrightarrow>
   a = 0 \<or> a = 1 \<Longrightarrow> False"
  by (induction rule: aliasChain.induct)
     (auto simp: aliasOf_def cellAliasing_def blankCell_def split: if_splits)

text \<open>
  C9. When the alias chain of a symbol is finite and acyclic, that is, when it ends at
  a symbol \<open>r\<close> without an alias target, \<^verbatim>\<open>resolveAlias\<close> terminates and returns \<open>r\<close>,
  which has no \<^verbatim>\<open>aliasOf\<close> relation and is the only end of the chain. When the chain has
  no end (a direct or mutual cycle), \<^verbatim>\<open>resolveAlias\<close> does not return.
\<close>

theorem resolveAlias_fixed_point:
  "(aliasChain h a r \<longrightarrow>
      resolveAlias h a = Some r \<and> aliasOf (h r) = None
      \<and> (\<forall>r'. aliasChain h a r' \<longrightarrow> r' = r))
   \<and> ((\<nexists>r'. aliasChain h a r') \<longrightarrow> resolveAlias h a = None)"
proof (intro conjI impI allI)
  assume c: "aliasChain h a r"
  show "resolveAlias h a = Some r" by (rule aliasChain_resolve[OF c])
  show "aliasOf (h r) = None" by (rule aliasChain_root[OF c])
  fix r' assume "aliasChain h a r'"
  then have "resolveAlias h a = Some r'" by (rule aliasChain_resolve)
  with aliasChain_resolve[OF c] show "r' = r" by simp
next
  assume n: "\<nexists>r'. aliasChain h a r'"
  show "resolveAlias h a = None"
  proof (cases "resolveAlias h a")
    case None
    then show ?thesis .
  next
    case (Some r)
    then have "aliasChain h a r" by (rule resolve_aliasChain)
    with n show ?thesis by blast
  qed
qed

text \<open>
  The chain \<open>0 \<rightarrow> 1 \<rightarrow> 2\<close> resolves to \<open>2\<close>; on the mutual cycle \<open>0 \<rightarrow> 1 \<rightarrow> 0\<close> the
  function does not return.
\<close>

theorem resolveAlias_fixed_point_witness:
  "resolveAlias ((\<lambda>_. cellAliasing None)(0 := cellAliasing (Some 1), 1 := cellAliasing (Some 2))) 0
     = Some 2
   \<and> resolveAlias ((\<lambda>_. cellAliasing None)(0 := cellAliasing (Some 1), 1 := cellAliasing (Some 0))) 0
     = None"
proof
  let ?h = "(\<lambda>_. cellAliasing None)(0 := cellAliasing (Some 1), 1 := cellAliasing (Some 2))"
  have "aliasChain ?h 2 2"
    by (rule aliasChain.root) (simp add: aliasOf_def cellAliasing_def blankCell_def)
  then have "aliasChain ?h 1 2"
    by (rule aliasChain.link[rotated]) (simp add: aliasOf_def cellAliasing_def blankCell_def)
  then have "aliasChain ?h 0 2"
    by (rule aliasChain.link[rotated]) (simp add: aliasOf_def cellAliasing_def blankCell_def)
  with resolveAlias_fixed_point[of ?h 0 2] show "resolveAlias ?h 0 = Some 2" by blast
next
  let ?h = "(\<lambda>_. cellAliasing None)(0 := cellAliasing (Some 1), 1 := cellAliasing (Some 0))"
  have "\<nexists>r'. aliasChain ?h 0 r'" using no_chain_in_cycle[of ?h 0] by blast
  with resolveAlias_fixed_point[of ?h 0 0] show "resolveAlias ?h 0 = None" by blast
qed

section \<open>Events and fields of the store\<close>

lemma trace_publish [simp]: "trace (publish ev s) = trace s @ [ev]"
  and heap_publish [simp]: "heap (publish ev s) = heap s"
  and nextSym_publish [simp]: "nextSym (publish ev s) = nextSym s"
  by (simp_all add: publish_def)

lemma onSymbolAliasCreated_cell:
  "sameMetadata (heap s x) (heap (onSymbolAliasCreated t s) x)
   \<and> relations (heap (onSymbolAliasCreated t s) x) = relations (heap s x)"
  by (simp add: onSymbolAliasCreated_def sameMetadata_def)

lemma onSymbolAliasRemoved_cell:
  "sameMetadata (heap s x) (heap (onSymbolAliasRemoved t s) x)
   \<and> relations (heap (onSymbolAliasRemoved t s) x) = relations (heap s x)"
  by (simp add: onSymbolAliasRemoved_def sameMetadata_def split: option.splits)

lemma trigger_cell:
  "sameMetadata (heap s x) (heap (trigger ev s) x)
   \<and> relations (heap (trigger ev s) x) = relations (heap s x)"
proof (cases ev)
  case (SymbolRemoved p a)
  show ?thesis
  proof (cases "aliasOf (heap s a)")
    case None
    with SymbolRemoved show ?thesis by (simp add: Let_def sameMetadata_def)
  next
    case (Some t)
    with SymbolRemoved show ?thesis
      using onSymbolAliasRemoved_cell[of "publish (SymbolAliasRemoved t p a) (publish (SymbolRemoved p a) s)" x t]
      by (simp add: Let_def)
  qed
next
  case (SymbolAliasCreated t p a)
  then show ?thesis using onSymbolAliasCreated_cell[of "publish ev s" x t]
    by simp
next
  case (SymbolAliasRemoved t p a)
  then show ?thesis using onSymbolAliasRemoved_cell[of "publish ev s" x t]
    by simp
qed (simp_all add: sameMetadata_def)

declare trigger.simps [simp del]

lemma sameMetadata_refl [simp]: "sameMetadata c c"
  by (simp add: sameMetadata_def)

lemma sameMetadata_trans: "sameMetadata c c' \<Longrightarrow> sameMetadata c' c'' \<Longrightarrow> sameMetadata c c''"
  by (simp add: sameMetadata_def)

lemma amendRelation_cell:
  "sameMetadata (heap s x) (heap (amendRelation path a rs k s) x)"
proof -
  define s0 where "s0 = (case aliasOf (heap s a) of None \<Rightarrow> s
                         | Some old \<Rightarrow> trigger (SymbolAliasRemoved old path a) s)"
  define s1 where "s1 = (if k = ''aliasOf'' \<and> aliasOf (heap s a) \<noteq> map_of rs ''aliasOf'' then
               (case map_of rs ''aliasOf'' of None \<Rightarrow> s0
                | Some target \<Rightarrow> trigger (SymbolAliasCreated target path a) s0)
             else s)"
  have p0: "sameMetadata (heap s x) (heap s0 x)"
    unfolding s0_def using trigger_cell by (cases "aliasOf (heap s a)") simp_all
  have p1: "sameMetadata (heap s x) (heap s1 x)"
  proof (cases "k = ''aliasOf'' \<and> aliasOf (heap s a) \<noteq> map_of rs ''aliasOf''")
    case True
    show ?thesis
    proof (cases "map_of rs ''aliasOf''")
      case None
      with True p0 show ?thesis by (simp add: s1_def)
    next
      case (Some target)
      with True have "s1 = trigger (SymbolAliasCreated target path a) s0" by (simp add: s1_def)
      with p0 trigger_cell[of s0 x] show ?thesis by (auto intro: sameMetadata_trans)
    qed
  next
    case False
    then show ?thesis by (auto simp: s1_def)
  qed
  have "amendRelation path a rs k s = (case map_of rs k of None \<Rightarrow> s1
             | Some v \<Rightarrow> s1\<lparr>heap := (heap s1)(a := (heap s1 a)
                 \<lparr>relations := Some (AList.update k v
                    (case relations (heap s1 a) of None \<Rightarrow> [] | Some old \<Rightarrow> old))\<rparr>)\<rparr>)"
    by (simp only: amendRelation_def Let_def s0_def s1_def)
  with p1 show ?thesis
    by (cases "map_of rs k") (auto simp: sameMetadata_def)
qed

lemma amendRelation_relations:
  assumes "relations (heap s a) = Some old"
  shows "relations (heap (amendRelation path a rs k s) a)
     = Some (case map_of rs k of None \<Rightarrow> old | Some v \<Rightarrow> AList.update k v old)"
proof -
  define s0 where "s0 = (case aliasOf (heap s a) of None \<Rightarrow> s
                         | Some old \<Rightarrow> trigger (SymbolAliasRemoved old path a) s)"
  define s1 where "s1 = (if k = ''aliasOf'' \<and> aliasOf (heap s a) \<noteq> map_of rs ''aliasOf'' then
               (case map_of rs ''aliasOf'' of None \<Rightarrow> s0
                | Some target \<Rightarrow> trigger (SymbolAliasCreated target path a) s0)
             else s)"
  have p0: "relations (heap s0 a) = Some old"
    unfolding s0_def using trigger_cell assms by (cases "aliasOf (heap s a)") simp_all
  have p1: "relations (heap s1 a) = Some old"
  proof (cases "k = ''aliasOf'' \<and> aliasOf (heap s a) \<noteq> map_of rs ''aliasOf''")
    case True
    show ?thesis
    proof (cases "map_of rs ''aliasOf''")
      case None
      with True p0 show ?thesis by (simp add: s1_def)
    next
      case (Some target)
      with True have "s1 = trigger (SymbolAliasCreated target path a) s0" by (simp add: s1_def)
      with p0 trigger_cell[of s0 a] show ?thesis by simp
    qed
  next
    case False
    with assms show ?thesis by (auto simp: s1_def)
  qed
  have "amendRelation path a rs k s = (case map_of rs k of None \<Rightarrow> s1
             | Some v \<Rightarrow> s1\<lparr>heap := (heap s1)(a := (heap s1 a)
                 \<lparr>relations := Some (AList.update k v
                    (case relations (heap s1 a) of None \<Rightarrow> [] | Some old \<Rightarrow> old))\<rparr>)\<rparr>)"
    by (simp only: amendRelation_def Let_def s0_def s1_def)
  with p1 show ?thesis
    by (cases "map_of rs k") simp_all
qed

lemma amendRelations_cell:
  "sameMetadata (heap s x) (heap (amendRelations path a rs keys s) x)"
proof (induction keys arbitrary: s)
  case Nil
  then show ?case by simp
next
  case (Cons k keys)
  from Cons.IH[of "amendRelation path a rs k s"] amendRelation_cell[of s x path a rs k]
  show ?case by (auto intro: sameMetadata_trans)
qed

lemma amendRelations_relations:
  "relations (heap s a) = Some old \<Longrightarrow>
   relations (heap (amendRelations path a rs keys s) a)
     = Some (fold (\<lambda>k acc. case map_of rs k of None \<Rightarrow> acc | Some v \<Rightarrow> AList.update k v acc) keys old)"
proof (induction keys arbitrary: s old)
  case Nil
  then show ?case by simp
next
  case (Cons k keys)
  from Cons.IH[OF amendRelation_relations[OF Cons.prems, of path rs k]]
  show ?case by simp
qed

text \<open>The cell of the amended symbol after \<^verbatim>\<open>amendSymbolMetadata\<close>, field by field.\<close>

lemma amendSymbolMetadata_cell:
  shows "fst (amendSymbolMetadata path a (Some ad) s) =
           (case visibility ad of
              None \<Rightarrow> Return ()
            | Some v \<Rightarrow> if visibilityChangeAccepted (visibility (heap s a)) v then Return () else Throw (CannotChangeVisibility (visibility (heap s a)) v))"
    and "desc (heap (snd (amendSymbolMetadata path a (Some ad) s)) a)
           = (case desc ad of None \<Rightarrow> desc (heap s a) | Some d \<Rightarrow> Some d)"
    and "subcategory (heap (snd (amendSymbolMetadata path a (Some ad) s)) a)
           = (case subcategory ad of None \<Rightarrow> subcategory (heap s a) | Some d \<Rightarrow> Some d)"
    and "relations (heap (snd (amendSymbolMetadata path a (Some ad) s)) a)
           = (case relations ad of None \<Rightarrow> relations (heap s a) | Some rs \<Rightarrow> mergeRelations rs (relations (heap s a)))"
    and "visibility (heap (snd (amendSymbolMetadata path a (Some ad) s)) a)
           = (case visibility ad of
                None \<Rightarrow> visibility (heap s a)
              | Some v \<Rightarrow> if visibilityChangeAccepted (visibility (heap s a)) v then Some v else visibility (heap s a))"
    and "visibilityRestriction (heap (snd (amendSymbolMetadata path a (Some ad) s)) a)
           = (case visibilityRestriction ad of
                None \<Rightarrow> visibilityRestriction (heap s a)
              | Some r \<Rightarrow>
                 (if r = [] \<or> fst (amendSymbolMetadata path a (Some ad) s) \<noteq> Return ()
                  then visibilityRestriction (heap s a)
                  else Some ((case visibilityRestriction (heap s a) of None \<Rightarrow> [] | Some old \<Rightarrow> old) @ r)))"
    and "locations (heap (snd (amendSymbolMetadata path a (Some ad) s)) a) = locations (heap s a)"
    and "category (heap (snd (amendSymbolMetadata path a (Some ad) s)) a) = category (heap s a)"
    and "identifier (heap (snd (amendSymbolMetadata path a (Some ad) s)) a) = identifier (heap s a)"
proof -
  define s1 where "s1 = (case desc ad of
                      None \<Rightarrow> s
                    | Some d \<Rightarrow> s\<lparr>heap := (heap s)(a := (heap s a)\<lparr>desc := Some d\<rparr>)\<rparr>)"
  define s1' where "s1' = (case relations (heap s1 a) of
                             None \<Rightarrow> s1\<lparr>heap := (heap s1)(a := (heap s1 a)\<lparr>relations := Some []\<rparr>)\<rparr>
                           | Some _ \<Rightarrow> s1)"
  define s2 where "s2 = (case relations ad of
                      None \<Rightarrow> s1
                    | Some rs \<Rightarrow>
                       (if rs = [] then s1
                        else amendRelations path a rs (List.map fst rs) s1'))"
  define s3 where "s3 = (case subcategory ad of
                      None \<Rightarrow> s2
                    | Some sc \<Rightarrow> s2\<lparr>heap := (heap s2)(a := (heap s2 a)\<lparr>subcategory := Some sc\<rparr>)\<rparr>)"
  have c1: "heap s1 a = (heap s a)\<lparr>desc := (case desc ad of None \<Rightarrow> desc (heap s a) | Some d \<Rightarrow> Some d)\<rparr>"
    by (cases "desc ad") (simp_all add: s1_def)
  have c1': "heap s1' a = (heap s1 a)\<lparr>relations := Some (case relations (heap s a) of None \<Rightarrow> [] | Some r \<Rightarrow> r)\<rparr>"
    by (cases "relations (heap s a)") (simp_all add: s1'_def c1)
  have m1': "sameMetadata (heap s1 a) (heap s1' a)"
    by (simp add: c1' sameMetadata_def)
  have m2: "sameMetadata (heap s1 a) (heap s2 a)"
    using amendRelations_cell[of s1' a path a _ _] m1'
    by (auto simp: s2_def split: option.splits intro: sameMetadata_trans)
  have r2: "relations (heap s2 a) = (case relations ad of None \<Rightarrow> relations (heap s a) | Some rs \<Rightarrow> mergeRelations rs (relations (heap s a)))"
  proof (cases "relations ad")
    case None
    then show ?thesis by (simp add: s2_def c1)
  next
    case (Some rs)
    show ?thesis
    proof (cases "rs = []")
      case True
      with Some show ?thesis by (simp add: s2_def c1 mergeRelations_def)
    next
      case False
      have "relations (heap s1' a) = Some (case relations (heap s a) of None \<Rightarrow> [] | Some r \<Rightarrow> r)"
        by (simp add: c1')
      from amendRelations_relations[OF this] Some False show ?thesis
        by (simp add: s2_def mergeRelations_def)
    qed
  qed
  have c3: "heap s3 a = (heap s2 a)\<lparr>subcategory := (case subcategory ad of None \<Rightarrow> subcategory (heap s a) | Some d \<Rightarrow> Some d)\<rparr>"
    using m2 by (cases "subcategory ad") (simp_all add: s3_def c1 sameMetadata_def)
  have v3: "visibility (heap s3 a) = visibility (heap s a)" "visibilityRestriction (heap s3 a) = visibilityRestriction (heap s a)"
    "locations (heap s3 a) = locations (heap s a)" "category (heap s3 a) = category (heap s a)" "identifier (heap s3 a) = identifier (heap s a)"
    "desc (heap s3 a) = (case desc ad of None \<Rightarrow> desc (heap s a) | Some d \<Rightarrow> Some d)"
    "relations (heap s3 a) = (case relations ad of None \<Rightarrow> relations (heap s a) | Some rs \<Rightarrow> mergeRelations rs (relations (heap s a)))"
    using m2 r2 by (simp_all add: c3 c1 sameMetadata_def)
  have unfold: "amendSymbolMetadata path a (Some ad) s =
     (case (case visibility ad of
                      None \<Rightarrow> Return s3
                    | Some v \<Rightarrow>
                       (if visibilityChangeAccepted (visibility (heap s3 a)) v
                        then Return (s3\<lparr>heap := (heap s3)(a := (heap s3 a)\<lparr>visibility := Some v\<rparr>)\<rparr>)
                        else Throw (CannotChangeVisibility (visibility (heap s3 a)) v))) of
               Throw e \<Rightarrow> (Throw e, s3)
             | Return s4 \<Rightarrow>
                 (Return (),
                  (case visibilityRestriction ad of
                     None \<Rightarrow> s4
                   | Some r \<Rightarrow>
                      (if r = [] then s4
                       else s4\<lparr>heap := (heap s4)(a := (heap s4 a)\<lparr>visibilityRestriction :=
                         Some ((case visibilityRestriction (heap s4 a) of None \<Rightarrow> [] | Some old \<Rightarrow> old)
                               @ r)\<rparr>)\<rparr>))))"
    by (simp only: amendSymbolMetadata_def Let_def s1_def s1'_def s2_def s3_def option.case)
  show "fst (amendSymbolMetadata path a (Some ad) s) =
           (case visibility ad of
              None \<Rightarrow> Return ()
            | Some v \<Rightarrow> if visibilityChangeAccepted (visibility (heap s a)) v then Return () else Throw (CannotChangeVisibility (visibility (heap s a)) v))"
    by (simp add: unfold v3 split: option.splits)
  show "desc (heap (snd (amendSymbolMetadata path a (Some ad) s)) a)
           = (case desc ad of None \<Rightarrow> desc (heap s a) | Some d \<Rightarrow> Some d)"
    by (simp add: unfold v3 split: option.splits)
  show "subcategory (heap (snd (amendSymbolMetadata path a (Some ad) s)) a)
           = (case subcategory ad of None \<Rightarrow> subcategory (heap s a) | Some d \<Rightarrow> Some d)"
    by (simp add: unfold c3 split: option.splits)
  show "relations (heap (snd (amendSymbolMetadata path a (Some ad) s)) a)
           = (case relations ad of None \<Rightarrow> relations (heap s a) | Some rs \<Rightarrow> mergeRelations rs (relations (heap s a)))"
    by (simp add: unfold v3 split: option.splits)
  show "visibility (heap (snd (amendSymbolMetadata path a (Some ad) s)) a)
           = (case visibility ad of
                None \<Rightarrow> visibility (heap s a)
              | Some v \<Rightarrow> if visibilityChangeAccepted (visibility (heap s a)) v then Some v else visibility (heap s a))"
    by (simp add: unfold v3 split: option.splits)
  show "visibilityRestriction (heap (snd (amendSymbolMetadata path a (Some ad) s)) a)
           = (case visibilityRestriction ad of
                None \<Rightarrow> visibilityRestriction (heap s a)
              | Some r \<Rightarrow>
                 (if r = [] \<or> fst (amendSymbolMetadata path a (Some ad) s) \<noteq> Return ()
                  then visibilityRestriction (heap s a)
                  else Some ((case visibilityRestriction (heap s a) of None \<Rightarrow> [] | Some old \<Rightarrow> old) @ r)))"
    by (simp add: unfold v3 split: option.splits)
  show "locations (heap (snd (amendSymbolMetadata path a (Some ad) s)) a) = locations (heap s a)"
    by (simp add: unfold v3 split: option.splits)
  show "category (heap (snd (amendSymbolMetadata path a (Some ad) s)) a) = category (heap s a)"
    by (simp add: unfold v3 split: option.splits)
  show "identifier (heap (snd (amendSymbolMetadata path a (Some ad) s)) a) = identifier (heap s a)"
    by (simp add: unfold v3 split: option.splits)
qed


lemma visibilityChangeAccepted_iff_tier:
  "visibilityChangeAccepted old v \<longleftrightarrow> storageTier old = storageTier (Some v)"
proof (cases old)
  case None
  then show ?thesis by (cases v) (simp_all add: visibilityChangeAccepted_def inGlobalTable_def)
next
  case (Some w)
  then show ?thesis
    by (cases v; cases w) (simp_all add: visibilityChangeAccepted_def inGlobalTable_def)
qed

section \<open>Entering a symbol\<close>

lemma insertProperty_append:
  "arrayIndex k = None \<Longrightarrow> insertProperty k v obj = obj @ [(k, v)]"
  by (induction k v obj rule: insertProperty.induct) simp_all

lemma enterMap_inherited_identifier:
  "map_of m ident = None \<Longrightarrow> ident \<in> set objectPrototypeProperties \<Longrightarrow>
   enterMap m cat path ident addition docUri b s = None"
  by (simp add: enterMap_def getProperty_def)

text \<open>
  C5, as the code has it. When \<^verbatim>\<open>map[identifier]\<close> is undefined (the identifier is
  neither an own property of the map nor the name of a property that the map inherits),
  \<^verbatim>\<open>enterMap\<close> returns a new symbol, which is an own property of the map afterwards.
  The symbol is the object that \<^verbatim>\<open>createSymbol\<close> builds from the category, the
  identifier and the data of the addition; when the addition has a usage, its location
  is recorded on the symbol and the location-created event is published. The
  symbol-created event is published after that event, as the last one of the call.
\<close>

theorem enterMap_new_symbol_events:
  assumes "getProperty m ident = Undefined"
  shows "enterMap m cat path ident addition docUri b s =
     Some (Return (Sym (nextSym s) None),
           \<lparr>heap = (heap s)(nextSym s :=
               (let d = (case data addition of None \<Rightarrow> emptyData | Some d \<Rightarrow> d) in
                \<lparr>desc = desc d, relations = relations d, subcategory = subcategory d,
                 visibility = visibility d, visibilityRestriction = visibilityRestriction d,
                 category = cat, identifier = ident, aliasAmount = None,
                 locations =
                   (case usage addition of
                      None \<Rightarrow> (\<lambda>_. None)
                    | Some u \<Rightarrow> (\<lambda>_. None)
                        ((case usageType u of None \<Rightarrow> Reference | Some t \<Rightarrow> t) :=
                           Some [createLocation u docUri b]))\<rparr>)),
             nextSym = nextSym s + 1,
             trace = trace s
               @ (case usage addition of
                    None \<Rightarrow> []
                  | Some u \<Rightarrow> [SymbolLocationCreated path (nextSym s)
                                 (case usageType u of None \<Rightarrow> Reference | Some t \<Rightarrow> t)
                                 (createLocation u docUri b)])
               @ [SymbolCreated path (nextSym s)]\<rparr>,
           insertProperty ident (Sym (nextSym s) None) m)"
  using assms
  by (simp add: enterMap_def createSymbol_def amendSymbolUsage_def Let_def trigger.simps
      publish_def split: option.splits)

text \<open>
  A reference entered from a document that is not a file, beside an existing symbol:
  the location (without ranges) is published before the creation of the symbol, and
  the symbol is the last property of the map.
\<close>

theorem enterMap_new_symbol_events_witness:
  "getProperty [(''Bar'', Sym 0 None)] ''Foo'' = Undefined
   \<and> map_option (\<lambda>(r, s', m'). (r, trace s', locations (heap s' 1) Reference, m'))
       (enterMap [(''Bar'', Sym 0 None)] ''type'' [''Foo''] ''Foo''
        \<lparr>data = None, usage = Some \<lparr>usageType = None, usageRange = None,
           usageNode = Some (4, 7), usageFullRange = None, usageAccessType = None,
           usageFromDefaultLibrary = None\<rparr>\<rparr>
        ''spyglassmc://x'' True \<lparr>heap = (\<lambda>_. blankCell), nextSym = 1, trace = []\<rparr>)
     = Some (Return (Sym 1 None),
        [SymbolLocationCreated [''Foo''] 1 Reference
          \<lparr>uri = ''spyglassmc://x'', range' = None, fullRange = None, isUriBound = True,
           accessType = None, fromDefaultLibrary = None\<rparr>,
         SymbolCreated [''Foo''] 1],
        Some [\<lparr>uri = ''spyglassmc://x'', range' = None, fullRange = None, isUriBound = True,
           accessType = None, fromDefaultLibrary = None\<rparr>],
        [(''Bar'', Sym 0 None), (''Foo'', Sym 1 None)])"
proof -
  have h: "getProperty [(''Bar'', Sym 0 None)] ''Foo'' = Undefined"
    by (simp add: getProperty_def objectPrototypeProperties_def)
  have i: "arrayIndex ''Foo'' = None"
    by (simp add: arrayIndex_def)
  show ?thesis
    using enterMap_new_symbol_events[OF h, of "''type''" "[''Foo'']"]
    by (simp add: h i createLocation_def startsWithFile_def)
qed

text \<open>
  C5 as stated fails: entering the declaration of \<open>Foo\<close> into an empty map publishes
  the location-created event first and the symbol-created event second.
\<close>

theorem enterMap_symbol_created_first_counterexample:
  "map_option (\<lambda>(r, s', m'). trace s')
     (enterMap [] ''type'' [''Foo''] ''Foo''
        \<lparr>data = None, usage = Some \<lparr>usageType = Some Declaration, usageRange = Some (0, 3),
           usageNode = None, usageFullRange = None, usageAccessType = None,
           usageFromDefaultLibrary = None\<rparr>\<rparr>
        ''file:///foo'' False \<lparr>heap = (\<lambda>_. blankCell), nextSym = 0, trace = []\<rparr>)
     = Some [SymbolLocationCreated [''Foo''] 0 Declaration
          \<lparr>uri = ''file:///foo'', range' = Some (0, 3), fullRange = None, isUriBound = False,
           accessType = None, fromDefaultLibrary = None\<rparr>,
        SymbolCreated [''Foo''] 0]"
  by (simp add: enterMap_def getProperty_def objectPrototypeProperties_def createSymbol_def
      amendSymbolUsage_def Let_def createLocation_def startsWithFile_def trigger.simps)

section \<open>Amending the metadata of a symbol\<close>

text \<open>
  C3, as the code has it. When the addition carries a visibility of another storage
  tier than the one of the symbol, \<^verbatim>\<open>amendSymbolMetadata\<close> throws, and \<^verbatim>\<open>amendSymbol\<close>
  with it, before any usage is recorded. The visibility, the visibility restriction,
  the locations, the category and the identifier of the symbol are as before. The
  description, the relations and the subcategory of the addition are written before the
  visibility is tested, and stay written.
\<close>

theorem amendSymbolMetadata_tier_change:
  assumes "visibility ad = Some v"
    and "storageTier (Some v) \<noteq> storageTier (visibility (heap s a))"
  shows "amendSymbol path a \<lparr>data = Some ad, usage = u\<rparr> docUri b s
           = (Throw (CannotChangeVisibility (visibility (heap s a)) v),
              snd (amendSymbolMetadata path a (Some ad) s))
    \<and> visibility (heap (snd (amendSymbolMetadata path a (Some ad) s)) a) = visibility (heap s a)
    \<and> visibilityRestriction (heap (snd (amendSymbolMetadata path a (Some ad) s)) a)
        = visibilityRestriction (heap s a)
    \<and> locations (heap (snd (amendSymbolMetadata path a (Some ad) s)) a) = locations (heap s a)
    \<and> category (heap (snd (amendSymbolMetadata path a (Some ad) s)) a) = category (heap s a)
    \<and> identifier (heap (snd (amendSymbolMetadata path a (Some ad) s)) a) = identifier (heap s a)
    \<and> desc (heap (snd (amendSymbolMetadata path a (Some ad) s)) a)
        = (case desc ad of None \<Rightarrow> desc (heap s a) | Some d \<Rightarrow> Some d)
    \<and> subcategory (heap (snd (amendSymbolMetadata path a (Some ad) s)) a)
        = (case subcategory ad of None \<Rightarrow> subcategory (heap s a) | Some d \<Rightarrow> Some d)
    \<and> relations (heap (snd (amendSymbolMetadata path a (Some ad) s)) a)
        = (case relations ad of
             None \<Rightarrow> relations (heap s a)
           | Some rs \<Rightarrow> mergeRelations rs (relations (heap s a)))"
proof -
  from assms(2) have rej: "\<not> visibilityChangeAccepted (visibility (heap s a)) v"
    by (simp add: visibilityChangeAccepted_iff_tier)
  have thrown: "fst (amendSymbolMetadata path a (Some ad) s)
      = Throw (CannotChangeVisibility (visibility (heap s a)) v)"
    using assms(1) rej by (simp add: amendSymbolMetadata_cell(1))
  have "amendSymbol path a \<lparr>data = Some ad, usage = u\<rparr> docUri b s
           = (Throw (CannotChangeVisibility (visibility (heap s a)) v),
              snd (amendSymbolMetadata path a (Some ad) s))"
    using thrown by (cases "amendSymbolMetadata path a (Some ad) s") (simp add: amendSymbol_def)
  moreover have "visibility (heap (snd (amendSymbolMetadata path a (Some ad) s)) a)
      = visibility (heap s a)"
    using assms(1) rej by (simp add: amendSymbolMetadata_cell(5))
  moreover have "visibilityRestriction (heap (snd (amendSymbolMetadata path a (Some ad) s)) a)
        = visibilityRestriction (heap s a)"
    using thrown by (simp add: amendSymbolMetadata_cell(6) split: option.splits)
  ultimately show ?thesis
    by (simp add: amendSymbolMetadata_cell(2,3,4,7,8,9))
qed

text \<open>
  A public symbol described as \<open>old\<close> is amended with the description \<open>new\<close> and the
  visibility \<open>Block\<close>: the call throws and the restriction list is as before.
\<close>

theorem amendSymbolMetadata_tier_change_witness:
  "fst (amendSymbolMetadata [''f''] 0
          (Some \<lparr>desc = Some ''new'', relations = None, subcategory = None,
                 visibility = Some Block, visibilityRestriction = Some [''r'']\<rparr>)
          \<lparr>heap = (\<lambda>_. blankCell)(0 := blankCell\<lparr>desc := Some ''old'', visibility := Some Public\<rparr>),
           nextSym = 1, trace = []\<rparr>)
     = Throw (CannotChangeVisibility (Some Public) Block)
   \<and> visibilityRestriction (heap (snd (amendSymbolMetadata [''f''] 0
          (Some \<lparr>desc = Some ''new'', relations = None, subcategory = None,
                 visibility = Some Block, visibilityRestriction = Some [''r'']\<rparr>)
          \<lparr>heap = (\<lambda>_. blankCell)(0 := blankCell\<lparr>desc := Some ''old'', visibility := Some Public\<rparr>),
           nextSym = 1, trace = []\<rparr>)) 0) = None"
proof -
  let ?ad = "\<lparr>desc = Some ''new'', relations = None, subcategory = None,
              visibility = Some Block, visibilityRestriction = Some [''r'']\<rparr>"
  let ?s = "\<lparr>heap = (\<lambda>_. blankCell)(0 := blankCell\<lparr>desc := Some ''old'', visibility := Some Public\<rparr>),
            nextSym = 1, trace = []\<rparr>"
  have h1: "visibility ?ad = Some Block" by simp
  have h2: "storageTier (Some Block) \<noteq> storageTier (visibility (heap ?s 0))" by simp
  from amendSymbolMetadata_tier_change[OF h1 h2, of "[''f'']" None "''file:///f''" False]
  show ?thesis
    by (simp add: amendSymbol_def blankCell_def split: prod.splits outcome.splits)
qed

text \<open>
  C3 as stated fails: the same call leaves the symbol described as \<open>new\<close>, although it
  throws.
\<close>

theorem amendSymbolMetadata_unmodified_counterexample:
  "fst (amendSymbolMetadata [''f''] 0
          (Some \<lparr>desc = Some ''new'', relations = None, subcategory = None,
                 visibility = Some Block, visibilityRestriction = None\<rparr>)
          \<lparr>heap = (\<lambda>_. blankCell)(0 := blankCell\<lparr>desc := Some ''old'', visibility := Some Public\<rparr>),
           nextSym = 1, trace = []\<rparr>)
     = Throw (CannotChangeVisibility (Some Public) Block)
   \<and> desc (heap \<lparr>heap = (\<lambda>_. blankCell)(0 := blankCell\<lparr>desc := Some ''old'', visibility := Some Public\<rparr>),
           nextSym = 1, trace = []\<rparr> 0) = Some ''old''
   \<and> desc (heap (snd (amendSymbolMetadata [''f''] 0
          (Some \<lparr>desc = Some ''new'', relations = None, subcategory = None,
                 visibility = Some Block, visibilityRestriction = None\<rparr>)
          \<lparr>heap = (\<lambda>_. blankCell)(0 := blankCell\<lparr>desc := Some ''old'', visibility := Some Public\<rparr>),
           nextSym = 1, trace = []\<rparr>)) 0) = Some ''new''"
  by (simp add: amendSymbolMetadata_def Let_def visibilityChangeAccepted_def inGlobalTable_def
      blankCell_def)

text \<open>
  C6, as the code has it. A description and a subcategory of the addition overwrite
  those of the symbol. A visibility of the addition overwrites the one of the symbol
  when it is accepted, that is, when it maps to the same storage tier; otherwise the
  call throws. A non-empty visibility restriction of the addition does not overwrite:
  it is appended to the restriction list of the symbol, unless the call throws.
\<close>

theorem amendSymbolMetadata_merge:
  "desc (heap (snd (amendSymbolMetadata path a (Some ad) s)) a)
     = (case desc ad of None \<Rightarrow> desc (heap s a) | Some d \<Rightarrow> Some d)
   \<and> subcategory (heap (snd (amendSymbolMetadata path a (Some ad) s)) a)
     = (case subcategory ad of None \<Rightarrow> subcategory (heap s a) | Some d \<Rightarrow> Some d)
   \<and> visibility (heap (snd (amendSymbolMetadata path a (Some ad) s)) a)
     = (case visibility ad of
          None \<Rightarrow> visibility (heap s a)
        | Some v \<Rightarrow> if storageTier (visibility (heap s a)) = storageTier (Some v)
                    then Some v else visibility (heap s a))
   \<and> fst (amendSymbolMetadata path a (Some ad) s)
     = (case visibility ad of
          None \<Rightarrow> Return ()
        | Some v \<Rightarrow> if storageTier (visibility (heap s a)) = storageTier (Some v)
                    then Return () else Throw (CannotChangeVisibility (visibility (heap s a)) v))
   \<and> visibilityRestriction (heap (snd (amendSymbolMetadata path a (Some ad) s)) a)
     = (case fst (amendSymbolMetadata path a (Some ad) s) of
          Throw e \<Rightarrow> visibilityRestriction (heap s a)
        | Return _ \<Rightarrow>
           (case visibilityRestriction ad of
              None \<Rightarrow> visibilityRestriction (heap s a)
            | Some r \<Rightarrow>
               (if r = [] then visibilityRestriction (heap s a)
                else Some ((case visibilityRestriction (heap s a) of None \<Rightarrow> [] | Some old \<Rightarrow> old)
                           @ r))))"
  by (simp add: amendSymbolMetadata_cell visibilityChangeAccepted_iff_tier
      split: option.splits outcome.splits)

text \<open>
  C6 as stated fails: the symbol is restricted to \<open>a\<close>, the addition carries the
  restriction \<open>b\<close>; afterwards the symbol is restricted to \<open>a\<close> and \<open>b\<close>, not to \<open>b\<close>.
\<close>

theorem amendSymbolMetadata_overwrite_counterexample:
  "visibilityRestriction (heap (snd (amendSymbolMetadata [''f''] 0
          (Some \<lparr>desc = None, relations = None, subcategory = None,
                 visibility = None, visibilityRestriction = Some [''b'']\<rparr>)
          \<lparr>heap = (\<lambda>_. blankCell)(0 := blankCell\<lparr>visibilityRestriction := Some [''a'']\<rparr>),
           nextSym = 1, trace = []\<rparr>)) 0) = Some [''a'', ''b'']"
  by (simp add: amendSymbolMetadata_def Let_def blankCell_def)

section \<open>Scoped blocks\<close>

text \<open>
  C7, as the code has it. \<^verbatim>\<open>block\<close> pushes one new frame onto the stack array of the
  document (created with one frame when the document has none) and runs the callback on
  that state. For a callback that leaves the array as long as it found it, one frame is
  popped on both exit paths: the outcome of the callback, an error included, is the
  outcome of \<^verbatim>\<open>block\<close>, and the stack is as long afterwards as before. Whenever the
  array holds at most one frame when the callback has finished, nothing is popped and
  the fatal error is thrown in place of any outcome of the callback.
\<close>

theorem block_balanced_callback:
  assumes "getStack u st = (sid, st1)"
    and "callbackFn (st1\<lparr>arrays := (arrays st1)(sid := arrays st1 sid @ [[]])\<rparr>) = (r, st3)"
  shows "(arrays st1 sid \<noteq> [] \<and> length (arrays st3 sid) = length (arrays st1 sid) + 1 \<longrightarrow>
            block u callbackFn st
              = (r, st3\<lparr>arrays := (arrays st3)(sid := butlast (arrays st3 sid))\<rparr>)
            \<and> length (arrays (snd (block u callbackFn st)) sid) = length (arrays st1 sid))
       \<and> (length (arrays st3 sid) \<le> 1 \<longrightarrow>
            block u callbackFn st = (Throw UnableToPopBlock, st3))"
  using assms by (cases "arrays st1 sid") (auto simp: block_def)

text \<open>
  On a stack of two frames the error of a throwing callback is propagated and the
  stack restored; after a callback that empties the array, the fatal error is thrown.
\<close>

theorem block_balanced_callback_witness:
  "block ''file:///d'' throwingCallback twoFrames = (Throw (Raised ''e''), twoFrames)
   \<and> block ''file:///d'' emptyingCallback twoFrames
       = (Throw UnableToPopBlock, twoFrames\<lparr>arrays := (arrays twoFrames)(0 := [])\<rparr>)"
proof
  have g: "getStack ''file:///d'' twoFrames = (0, twoFrames)"
    by (simp add: getStack_def twoFrames_def)
  have c: "throwingCallback (twoFrames\<lparr>arrays := (arrays twoFrames)(0 := arrays twoFrames 0 @ [[]])\<rparr>)
     = (Throw (Raised ''e''), twoFrames\<lparr>arrays := (arrays twoFrames)(0 := arrays twoFrames 0 @ [[]])\<rparr>)"
    by (simp add: throwingCallback_def)
  from block_balanced_callback[where callbackFn = throwingCallback, OF g c]
  show "block ''file:///d'' throwingCallback twoFrames = (Throw (Raised ''e''), twoFrames)"
    by (simp add: twoFrames_def)
next
  have g: "getStack ''file:///d'' twoFrames = (0, twoFrames)"
    by (simp add: getStack_def twoFrames_def)
  have c: "emptyingCallback (twoFrames\<lparr>arrays := (arrays twoFrames)(0 := arrays twoFrames 0 @ [[]])\<rparr>)
     = (Return (), twoFrames\<lparr>arrays := (arrays twoFrames)(0 := [])\<rparr>)"
    by (simp add: emptyingCallback_def twoFrames_def)
  from block_balanced_callback[where callbackFn = emptyingCallback, OF g c]
  show "block ''file:///d'' emptyingCallback twoFrames
       = (Throw UnableToPopBlock, twoFrames\<lparr>arrays := (arrays twoFrames)(0 := [])\<rparr>)"
    by (simp add: twoFrames_def)
qed

text \<open>
  C7 as stated fails for a callback that changes the length of the stack itself: on a
  stack of two frames, a callback that pops one frame returns normally, \<^verbatim>\<open>block\<close>
  pops another one, and one frame is left.
\<close>

theorem block_length_counterexample:
  "length (arrays twoFrames 0) = 2
   \<and> fst (block ''file:///d'' poppingCallback twoFrames) = Return ()
   \<and> length (arrays (snd (block ''file:///d'' poppingCallback twoFrames)) 0) = 1"
  by (simp add: block_def getStack_def twoFrames_def poppingCallback_def)

section \<open>Trimming\<close>

lemma amountLe_refl [simp]: "amountLe v v"
  by (cases v) simp_all

lemma amountLe_trans: "amountLe v2 v1 \<Longrightarrow> amountLe v1 v0 \<Longrightarrow> amountLe v2 v0"
  by (cases v2; cases v1; cases v0) simp_all

lemma amountLe_antisym: "amountLe v1 v0 \<Longrightarrow> amountLe v0 v1 \<Longrightarrow> v1 = v0"
  by (cases v1; cases v0) simp_all

lemma cellLe_refl [simp]: "cellLe c c"
proof -
  have "c = c\<lparr>aliasAmount := aliasAmount c\<rparr>" by simp
  then show ?thesis unfolding cellLe_def using amountLe_refl by blast
qed

lemma cellLe_trans:
  assumes "cellLe c2 c1" and "cellLe c1 c0"
  shows "cellLe c2 c0"
proof -
  from assms(1) obtain v2 where c2: "c2 = c1\<lparr>aliasAmount := v2\<rparr>" and l2: "amountLe v2 (aliasAmount c1)"
    unfolding cellLe_def by blast
  from assms(2) obtain v1 where c1: "c1 = c0\<lparr>aliasAmount := v1\<rparr>" and l1: "amountLe v1 (aliasAmount c0)"
    unfolding cellLe_def by blast
  have "c2 = c0\<lparr>aliasAmount := v2\<rparr>" by (simp add: c2 c1)
  moreover have "amountLe v2 (aliasAmount c0)"
    using l2 l1 by (simp add: c1) (rule amountLe_trans)
  ultimately show ?thesis unfolding cellLe_def by blast
qed

lemma cellLe_sandwich:
  assumes "cellLe c2 c1" and "cellLe c1 c0" and "c2 = c0"
  shows "c1 = c0"
proof -
  from assms(1) obtain v2 where c2: "c2 = c1\<lparr>aliasAmount := v2\<rparr>" and l2: "amountLe v2 (aliasAmount c1)"
    unfolding cellLe_def by blast
  from assms(2) obtain v1 where c1: "c1 = c0\<lparr>aliasAmount := v1\<rparr>" and l1: "amountLe v1 (aliasAmount c0)"
    unfolding cellLe_def by blast
  have "aliasAmount c2 = v2" by (simp add: c2)
  with assms(3) have "v2 = aliasAmount c0" by simp
  moreover have "aliasAmount c1 = v1" by (simp add: c1)
  ultimately have "v1 = aliasAmount c0" using l1 l2 by (simp add: amountLe_antisym)
  then show ?thesis by (simp add: c1)
qed

lemma heapLe_refl [simp]: "heapLe h h"
  by (simp add: heapLe_def)

lemma heapLe_trans: "heapLe h2 h1 \<Longrightarrow> heapLe h1 h0 \<Longrightarrow> heapLe h2 h0"
  unfolding heapLe_def by (blast intro: cellLe_trans)

lemma heapLe_sandwich:
  assumes "heapLe h2 h1" and "heapLe h1 h0" and "h2 = h0"
  shows "h1 = h0"
proof
  fix x
  from assms show "h1 x = h0 x"
    unfolding heapLe_def using cellLe_sandwich[of "h2 x" "h1 x" "h0 x"] by simp
qed

lemma heapLe_locations:
  assumes "heapLe h' h"
  shows "locations (h' x) = locations (h x)"
proof -
  from assms obtain v where "h' x = (h x)\<lparr>aliasAmount := v\<rparr>"
    unfolding heapLe_def cellLe_def by blast
  then show ?thesis by simp
qed

lemma cellLe_amount: "amountLe v (aliasAmount c) \<Longrightarrow> cellLe (c\<lparr>aliasAmount := v\<rparr>) c"
  unfolding cellLe_def by blast

lemma heapLe_trimDecrement: "heapLe (heap (trimDecrement a s)) (heap s)"
  by (auto simp: trimDecrement_def heapLe_def intro!: cellLe_amount split: option.splits)

lemma heapLe_onSymbolAliasRemoved: "heapLe (heap (onSymbolAliasRemoved t s)) (heap s)"
  by (auto simp: onSymbolAliasRemoved_def heapLe_def intro!: cellLe_amount split: option.splits)

lemma heapLe_trigger_removed: "heapLe (heap (trigger (SymbolRemoved path a) s)) (heap s)"
proof (cases "aliasOf (heap s a)")
  case None
  then show ?thesis by (simp add: trigger.simps Let_def)
next
  case (Some t)
  then show ?thesis
    using heapLe_onSymbolAliasRemoved[of t "publish (SymbolAliasRemoved t path a) (publish (SymbolRemoved path a) s)"]
    by (simp add: trigger.simps Let_def)
qed

lemma heapLe_remove: "heapLe (heap (trigger (SymbolRemoved path a) (trimDecrement a s))) (heap s)"
  using heapLe_trigger_removed heapLe_trimDecrement by (rule heapLe_trans)

lemma trimMap_removed:
  "removable (heap s a) \<Longrightarrow>
   trimMap path ((ident, Sym a ms) # rest) s
     = trimMap path rest (trigger (SymbolRemoved path a) (trimDecrement a s))"
  by simp

lemma trimMap_kept_None:
  "\<not> removable (heap s a) \<Longrightarrow>
   trimMap path ((ident, Sym a None) # rest) s
     = (fst (trimMap path rest s), (ident, Sym a None) # snd (trimMap path rest s))"
  by (simp split: prod.splits)

lemma trimMap_kept_Some:
  "\<not> removable (heap s a) \<Longrightarrow>
   trimMap path ((ident, Sym a (Some m)) # rest) s
     = (fst (trimMap path rest (fst (trimMap (path @ [ident]) m s))),
        (ident, Sym a (if snd (trimMap (path @ [ident]) m s) = [] then None
                       else Some (snd (trimMap (path @ [ident]) m s))))
        # snd (trimMap path rest (fst (trimMap (path @ [ident]) m s))))"
  by (simp split: prod.splits)

declare trimMap.simps(2) [simp del]

lemma trimMap_heapLe: "heapLe (heap (fst (trimMap path m s))) (heap s)"
proof (induction path m s rule: trimMap.induct)
  case (1 path s)
  then show ?case by simp
next
  case (2 path ident a ms rest s)
  show ?case
  proof (cases "removable (heap s a)")
    case True
    from "2.IH"(1)[OF True] heapLe_remove[of path a s]
    have "heapLe (heap (fst (trimMap path rest (trigger (SymbolRemoved path a) (trimDecrement a s))))) (heap s)"
      by (rule heapLe_trans)
    with True show ?thesis by (simp add: trimMap_removed)
  next
    case False
    show ?thesis
    proof (cases ms)
      case None
      with False "2.IH"(2)[OF False None] show ?thesis by (simp add: trimMap_kept_None)
    next
      case (Some m)
      note a = "2.IH"(3)[OF False Some]
      note b = "2.IH"(4)[OF False Some prod.collapse]
      from b a have "heapLe (heap (fst (trimMap path rest (fst (trimMap (path @ [ident]) m s))))) (heap s)"
        by (rule heapLe_trans)
      with False Some show ?thesis by (simp add: trimMap_kept_Some)
    qed
  qed
qed

lemma trimMap_symbols: "set (symbolsOfMap (snd (trimMap path m s))) \<subseteq> set (symbolsOfMap m)"
proof (induction path m s rule: trimMap.induct)
  case (1 path s)
  then show ?case by simp
next
  case (2 path ident a ms rest s)
  show ?case
  proof (cases "removable (heap s a)")
    case True
    with "2.IH"(1)[OF True] show ?thesis
      by (auto simp: trimMap_removed)
  next
    case False
    show ?thesis
    proof (cases ms)
      case None
      with False "2.IH"(2)[OF False None] show ?thesis by (auto simp: trimMap_kept_None)
    next
      case (Some m)
      note a = "2.IH"(3)[OF False Some]
      note b = "2.IH"(4)[OF False Some prod.collapse]
      from a b False Some show ?thesis by (auto simp: trimMap_kept_Some)
    qed
  qed
qed

lemma trimMap_stable:
  "heap (fst (trimMap path m s)) = heap s \<Longrightarrow> heap s'' = heap s \<Longrightarrow>
   trimMap path (snd (trimMap path m s)) s'' = (s'', snd (trimMap path m s))"
proof (induction path m s arbitrary: s'' rule: trimMap.induct)
  case (1 path s)
  then show ?case by simp
next
  case (2 path ident a ms rest s)
  show ?case
  proof (cases "removable (heap s a)")
    case True
    define s1 where "s1 = trigger (SymbolRemoved path a) (trimDecrement a s)"
    have eq: "trimMap path ((ident, Sym a ms) # rest) s = trimMap path rest s1"
      using True by (simp add: trimMap_removed s1_def)
    from "2.prems"(1) have e: "heap (fst (trimMap path rest s1)) = heap s" by (simp only: eq)
    have h1: "heap s1 = heap s"
      using trimMap_heapLe[of path rest s1] heapLe_remove[of path a s] e
      unfolding s1_def by (rule heapLe_sandwich)
    have e1: "heap (fst (trimMap path rest s1)) = heap s1" by (simp only: e h1)
    have e2: "heap s'' = heap s1" by (simp only: "2.prems"(2) h1)
    from "2.IH"(1)[OF True, folded s1_def, OF e1 e2] show ?thesis by (simp only: eq)
  next
    case False
    have F'': "\<not> removable (heap s'' a)" using False by (simp add: "2.prems"(2))
    show ?thesis
    proof (cases ms)
      case None
      have eq: "trimMap path ((ident, Sym a ms) # rest) s
          = (fst (trimMap path rest s), (ident, Sym a None) # snd (trimMap path rest s))"
        using False None by (simp add: trimMap_kept_None)
      from "2.prems"(1) have e: "heap (fst (trimMap path rest s)) = heap s" by (simp add: eq)
      from "2.IH"(2)[OF False None e "2.prems"(2)]
      show ?thesis unfolding eq using F'' by (simp add: trimMap_kept_None)
    next
      case (Some m)
      define r1 where "r1 = trimMap (path @ [ident]) m s"
      define r2 where "r2 = trimMap path rest (fst r1)"
      have eq: "trimMap path ((ident, Sym a ms) # rest) s
          = (fst r2, (ident, Sym a (if snd r1 = [] then None else Some (snd r1))) # snd r2)"
        using False Some by (simp add: trimMap_kept_Some r1_def r2_def)
      from "2.prems"(1) have e2: "heap (fst r2) = heap s" by (simp add: eq)
      have e1: "heap (fst r1) = heap s"
        using trimMap_heapLe[of path rest "fst r1"] trimMap_heapLe[of "path @ [ident]" m s] e2
        unfolding r1_def r2_def by (rule heapLe_sandwich)
      have i1: "trimMap (path @ [ident]) (snd r1) s'' = (s'', snd r1)"
        using "2.IH"(3)[OF False Some, folded r1_def, OF e1 "2.prems"(2)] .
      have e21: "heap (fst r2) = heap (fst r1)" by (simp only: e2 e1)
      have e'': "heap s'' = heap (fst r1)" by (simp only: "2.prems"(2) e1)
      have i2: "trimMap path (snd r2) s'' = (s'', snd r2)"
        using "2.IH"(4)[OF False Some prod.collapse, folded r1_def, folded r2_def, OF e21 e''] .
      show ?thesis
        unfolding eq using F'' i1 i2
        by (simp add: trimMap_kept_None trimMap_kept_Some)
    qed
  qed
qed

lemma trim_Cons:
  "trim ((cat, m) # rest) s
     = (fst (trim rest (fst (trimMap [] m s))),
        (if snd (trimMap [] m s) = [] then snd (trim rest (fst (trimMap [] m s)))
         else (cat, snd (trimMap [] m s)) # snd (trim rest (fst (trimMap [] m s)))))"
  by (simp split: prod.splits)

declare trim.simps(2) [simp del]

lemma trim_heapLe: "heapLe (heap (fst (trim table s))) (heap s)"
proof (induction table s rule: trim.induct)
  case (1 s)
  then show ?case by simp
next
  case (2 cat m rest s)
  from "2.IH"[OF prod.collapse] trimMap_heapLe[of "[]" m s]
  have "heapLe (heap (fst (trim rest (fst (trimMap [] m s))))) (heap s)"
    by (rule heapLe_trans)
  then show ?case by (simp add: trim_Cons)
qed

lemma trim_symbols: "set (symbolsOfTable (snd (trim table s))) \<subseteq> set (symbolsOfTable table)"
proof (induction table s rule: trim.induct)
  case (1 s)
  then show ?case by simp
next
  case (2 cat m rest s)
  from "2.IH"[OF prod.collapse] trimMap_symbols[of "[]" m s]
  show ?case by (auto simp: trim_Cons symbolsOfTable_def)
qed

lemma trim_stable:
  "heap (fst (trim table s)) = heap s \<Longrightarrow> heap s'' = heap s \<Longrightarrow>
   trim (snd (trim table s)) s'' = (s'', snd (trim table s))"
proof (induction table s arbitrary: s'' rule: trim.induct)
  case (1 s)
  then show ?case by simp
next
  case (2 cat m rest s)
  define r1 where "r1 = trimMap [] m s"
  define r2 where "r2 = trim rest (fst r1)"
  have eq: "trim ((cat, m) # rest) s
      = (fst r2, (if snd r1 = [] then snd r2 else (cat, snd r1) # snd r2))"
    by (simp add: trim_Cons r1_def r2_def)
  from "2.prems"(1) have e2: "heap (fst r2) = heap s" by (simp add: eq)
  have e1: "heap (fst r1) = heap s"
    using trim_heapLe[of rest "fst r1"] trimMap_heapLe[of "[]" m s] e2
    unfolding r1_def r2_def by (rule heapLe_sandwich)
  have i1: "trimMap [] (snd r1) s'' = (s'', snd r1)"
    using trimMap_stable[of "[]" m s s'', folded r1_def, OF e1 "2.prems"(2)] .
  have e21: "heap (fst r2) = heap (fst r1)" by (simp only: e2 e1)
  have e'': "heap s'' = heap (fst r1)" by (simp only: "2.prems"(2) e1)
  have i2: "trim (snd r2) s'' = (s'', snd r2)"
    using "2.IH"[OF prod.collapse, folded r1_def, folded r2_def, OF e21 e''] .
  show ?case
    unfolding eq using i1 i2 by (simp add: trim_Cons)
qed

text \<open>The definitions that a concrete run of the enter operations unfolds.\<close>

lemmas run_defs = enterTable_def enterMap_def getProperty_def objectPrototypeProperties_def
  arrayIndex_def createSymbol_def amendSymbol_def
  amendSymbolMetadata_def amendSymbolUsage_def amendRelation_def createLocation_def
  startsWithFile_def emptyData_def trigger.simps publish_def onSymbolAliasCreated_def
  onSymbolAliasRemoved_def aliasOf_def Let_def

lemmas trim_defs = trimMap.simps trim.simps removable_def noLocations_def trimDecrement_def

lemmas scenario_defs = enterGlobal_def emptyUtil_def emptyStore_def usageOf_def aliasTo_def
  blankCell_def

text \<open>
  C4, as the code has it. When a run of \<^verbatim>\<open>trim\<close> leaves every alias count as it was (no
  trimmed symbol is an alias of a symbol with a defined count), a second run changes
  nothing: neither the table nor the store.
\<close>

theorem trim_idempotent_when_counts_unchanged:
  assumes "heap (fst (trim table s)) = heap s"
  shows "trim (snd (trim table s)) (fst (trim table s)) = trim table s"
  using trim_stable[OF assms assms] by simp

text \<open>
  The unused symbol \<open>X\<close> is trimmed and \<open>Y\<close> is kept; a second run gives the same.
\<close>

theorem trim_idempotent_when_counts_unchanged_witness:
  "snd (trim (global unusedBesideUsed) (objects unusedBesideUsed)) = [(''c'', [(''Y'', Sym 1 None)])]
   \<and> trim (snd (trim (global unusedBesideUsed) (objects unusedBesideUsed)))
          (fst (trim (global unusedBesideUsed) (objects unusedBesideUsed)))
       = trim (global unusedBesideUsed) (objects unusedBesideUsed)"
proof -
  have h: "heap (fst (trim (global unusedBesideUsed) (objects unusedBesideUsed)))
      = heap (objects unusedBesideUsed)"
    by (simp add: unusedBesideUsed_def noUsage_def run_defs trim_defs scenario_defs)
  have "snd (trim (global unusedBesideUsed) (objects unusedBesideUsed)) = [(''c'', [(''Y'', Sym 1 None)])]"
    by (simp add: unusedBesideUsed_def noUsage_def run_defs trim_defs scenario_defs)
  with trim_idempotent_when_counts_unchanged[OF h] show ?thesis by simp
qed

text \<open>
  C4 as stated fails. \<open>T\<close> has no location and two aliases, \<open>A\<close> without location and
  \<open>B\<close> with one. The first run visits \<open>T\<close> while its count is 2 and keeps it, then
  removes \<open>A\<close>, which takes the count of \<open>T\<close> to 0 (the direct decrement and the one
  of the subscriber); the second run removes \<open>T\<close>.
\<close>

theorem trim_twice_counterexample:
  "snd (trim (global aliasedTwice) (objects aliasedTwice))
     = [(''c'', [(''T'', Sym 0 None), (''B'', Sym 2 None)])]
   \<and> snd (trim (snd (trim (global aliasedTwice) (objects aliasedTwice)))
               (fst (trim (global aliasedTwice) (objects aliasedTwice))))
     = [(''c'', [(''B'', Sym 2 None)])]"
  by (simp add: aliasedTwice_def noUsage_def run_defs trim_defs scenario_defs)

section \<open>URI binding\<close>

lemma heap_fold_location_removed:
  "heap (fold (\<lambda>location st. if predicate location
                then trigger (SymbolLocationRemoved path a type location) st else st) ls s) = heap s"
  by (induction ls arbitrary: s) (simp_all add: trigger.simps)

lemma removeLocationsOfTypes_locations:
  "locations (heap (removeLocationsOfTypes predicate path a types s) x) t =
     (if x = a \<and> t \<in> set types
      then map_option (filter (\<lambda>l. \<not> predicate l)) (locations (heap s x) t)
      else locations (heap s x) t)"
proof (induction types arbitrary: s)
  case Nil
  then show ?case by simp
next
  case (Cons type types)
  show ?case
  proof (cases "locations (heap s a) type")
    case None
    with Cons.IH[of s] show ?thesis by auto
  next
    case (Some ls)
    define s1 where "s1 = fold (\<lambda>location st. if predicate location
                then trigger (SymbolLocationRemoved path a type location) st else st) ls s"
    define s2 where "s2 = s1\<lparr>heap := (heap s1)(a := (heap s1 a)
                      \<lparr>locations := (locations (heap s1 a))
                          (type := Some (filter (\<lambda>location. \<not> predicate location) ls))\<rparr>)\<rparr>"
    have h1: "heap s1 = heap s" by (simp add: s1_def heap_fold_location_removed)
    have step: "removeLocationsOfTypes predicate path a (type # types) s
        = removeLocationsOfTypes predicate path a types s2"
      using Some by (simp add: Let_def s1_def s2_def)
    have l2: "locations (heap s2 x) t =
        (if x = a \<and> t = type then Some (filter (\<lambda>l. \<not> predicate l) ls) else locations (heap s x) t)"
      by (simp add: s2_def h1)
    show ?thesis
      unfolding step Cons.IH[of s2] l2 using Some by auto
  qed
qed

lemma SymbolUsageTypes_all: "t \<in> set SymbolUsageTypes"
  by (cases t) (simp_all add: SymbolUsageTypes_def)

lemma filter_locations_idem:
  "map_option (filter (\<lambda>l. \<not> predicate l)) (map_option (filter (\<lambda>l. \<not> predicate l)) v)
     = map_option (filter (\<lambda>l. \<not> predicate l)) v"
  by (cases v) simp_all

lemma removeLocationsFromMap_locations:
  "locations (heap (removeLocationsFromMap predicate path m s) x) t =
     (if x \<in> set (symbolsOfMap m)
      then map_option (filter (\<lambda>l. \<not> predicate l)) (locations (heap s x) t)
      else locations (heap s x) t)"
proof (induction predicate path m s rule: removeLocationsFromMap.induct)
  case (1 predicate path s)
  then show ?case by simp
next
  case (2 predicate path ident a ms rest s)
  define s1 where "s1 = removeLocationsOfTypes predicate path a SymbolUsageTypes s"
  define s2 where "s2 = (case ms of None \<Rightarrow> s1
                | Some m \<Rightarrow> removeLocationsFromMap predicate (path @ [ident]) m s1)"
  have step: "removeLocationsFromMap predicate path ((ident, Sym a ms) # rest) s
      = removeLocationsFromMap predicate path rest s2"
    by (simp only: removeLocationsFromMap.simps Let_def s1_def s2_def)
  have l1: "locations (heap s1 x) t =
      (if x = a then map_option (filter (\<lambda>l. \<not> predicate l)) (locations (heap s x) t)
       else locations (heap s x) t)"
    by (simp add: s1_def removeLocationsOfTypes_locations SymbolUsageTypes_all)
  have l2: "locations (heap s2 x) t =
      (if x \<in> set (case ms of None \<Rightarrow> [] | Some m \<Rightarrow> symbolsOfMap m)
       then map_option (filter (\<lambda>l. \<not> predicate l)) (locations (heap s1 x) t)
       else locations (heap s1 x) t)"
  proof (cases ms)
    case None
    then show ?thesis by (simp add: s2_def)
  next
    case (Some m)
    with "2.IH"(1)[OF refl Some, folded s1_def] show ?thesis
      by (simp add: s2_def)
  qed
  have l3: "locations (heap (removeLocationsFromMap predicate path rest s2) x) t =
     (if x \<in> set (symbolsOfMap rest)
      then map_option (filter (\<lambda>l. \<not> predicate l)) (locations (heap s2 x) t)
      else locations (heap s2 x) t)"
    using "2.IH"(2)[OF refl refl, folded s1_def, folded s2_def] .
  show ?case
    unfolding step l3 l2 l1 by (auto simp: filter_locations_idem split: option.splits)
qed

lemma fold_removeLocationsFromMap_locations:
  "locations (heap (fold (\<lambda>(cat, m) st. removeLocationsFromMap predicate [] m st) table s) x) t =
     (if x \<in> set (symbolsOfTable table)
      then map_option (filter (\<lambda>l. \<not> predicate l)) (locations (heap s x) t)
      else locations (heap s x) t)"
proof (induction table arbitrary: s)
  case Nil
  then show ?case by (simp add: symbolsOfTable_def)
next
  case (Cons e table)
  obtain cat m where e: "e = (cat, m)" by (cases e)
  show ?case
    unfolding e
    by (auto simp: Cons.IH removeLocationsFromMap_locations symbolsOfTable_def
        filter_locations_idem)
qed

lemma removeLocations_retracted:
  "retracted predicate (snd (removeLocations table predicate s))
     (fst (removeLocations table predicate s))"
proof -
  define s1 where "s1 = fold (\<lambda>(cat, m) st. removeLocationsFromMap predicate [] m st) table s"
  have r: "removeLocations table predicate s = trim table s1"
    by (simp add: removeLocations_def s1_def)
  have "cleanCell predicate (heap (fst (trim table s1)) a)"
    if "a \<in> set (symbolsOfTable (snd (trim table s1)))" for a
  proof -
    from that trim_symbols[of table s1] have a: "a \<in> set (symbolsOfTable table)" by blast
    have "locations (heap (fst (trim table s1)) a) t
        = map_option (filter (\<lambda>l. \<not> predicate l)) (locations (heap s a) t)" for t
      using heapLe_locations[OF trim_heapLe[of table s1], of a] a
      by (simp add: s1_def fold_removeLocationsFromMap_locations)
    then show ?thesis
      by (auto simp: cleanCell_def list_all_iff split: option.splits)
  qed
  then show ?thesis
    by (simp add: retracted_def r list_all_iff)
qed

lemma removeLocations_locations:
  "locations (heap (fst (removeLocations table predicate s)) x) t =
     (if x \<in> set (symbolsOfTable table)
      then map_option (filter (\<lambda>l. \<not> predicate l)) (locations (heap s x) t)
      else locations (heap s x) t)"
  using heapLe_locations[OF trim_heapLe[of table
      "fold (\<lambda>(cat, m) st. removeLocationsFromMap predicate [] m st) table s"], of x]
  by (simp add: removeLocations_def fold_removeLocationsFromMap_locations)

lemma uriBinding_unserialisable_error:
  "fn (uriBindingEnter st) = (Throw (Unserialisable v e), st3) \<Longrightarrow>
   uriBinding logger fn st = (Throw e, st3\<lparr>isUriBinding := False\<rparr>)"
  by (simp add: uriBinding_def)

lemma uriBinding_logger_error:
  "fn (uriBindingEnter st) = (Throw e, st3) \<Longrightarrow> jsonStringify e = Return () \<Longrightarrow>
   uriBinding logger fn st = (logger e, st3\<lparr>logged := logged st3 @ [e], isUriBinding := False\<rparr>)"
  by (simp add: uriBinding_def)

text \<open>
  C8, as the code has it. \<^verbatim>\<open>uriBinding\<close> sets the flag and removes the URI-bound
  locations of the symbols of the global table: a symbol that is left in the global
  table has no URI-bound location, a symbol of that table keeps its other locations,
  and the locations of every other symbol, the stacks of the documents and their frames
  are as before. The callback runs on that state. When the callback returns, or throws
  an error that \<^verbatim>\<open>JSON.stringify\<close> turns into text and that the logger accepts,
  \<^verbatim>\<open>uriBinding\<close> returns normally, with the error logged. The flag is false after the
  call, whatever the callback and the logger do.
\<close>

theorem uriBinding_isolates_callback:
  assumes "fn (uriBindingEnter st) = (r, st3)"
  shows "isUriBinding (uriBindingEnter st) = True
    \<and> retracted isUriBound (global (uriBindingEnter st)) (objects (uriBindingEnter st))
    \<and> (\<forall>x t. locations (heap (objects (uriBindingEnter st)) x) t =
          (if x \<in> set (symbolsOfTable (global st))
           then map_option (filter (\<lambda>l. \<not> isUriBound l)) (locations (heap (objects st) x) t)
           else locations (heap (objects st) x) t))
    \<and> stacks (uriBindingEnter st) = stacks st
    \<and> arrays (uriBindingEnter st) = arrays st
    \<and> isUriBinding (snd (uriBinding logger fn st)) = False
    \<and> ((\<forall>e. r = Throw e \<longrightarrow> jsonStringify e = Return () \<and> logger e = Return ()) \<longrightarrow>
        uriBinding logger fn st
          = (Return (), st3\<lparr>logged := logged st3 @ (case r of Throw e \<Rightarrow> [e] | Return _ \<Rightarrow> []),
                           isUriBinding := False\<rparr>))"
proof -
  obtain s1 g1 where rl: "removeLocations (global st) isUriBound (objects st) = (s1, g1)"
    by (cases "removeLocations (global st) isUriBound (objects st)")
  have en: "uriBindingEnter st = st\<lparr>isUriBinding := True, objects := s1, global := g1\<rparr>"
    by (simp add: uriBindingEnter_def rl)
  have "retracted isUriBound (global (uriBindingEnter st)) (objects (uriBindingEnter st))"
    using removeLocations_retracted[of isUriBound "global st" "objects st"]
    by (simp add: en rl)
  moreover have "locations (heap (objects (uriBindingEnter st)) x) t =
          (if x \<in> set (symbolsOfTable (global st))
           then map_option (filter (\<lambda>l. \<not> isUriBound l)) (locations (heap (objects st) x) t)
           else locations (heap (objects st) x) t)" for x t
    using removeLocations_locations[of "global st" isUriBound "objects st" x t]
    by (simp add: en rl)
  moreover have "isUriBinding (snd (uriBinding logger fn st)) = False"
    using assms
    by (cases r) (simp_all add: uriBinding_def split: outcome.splits)
  moreover have "uriBinding logger fn st
          = (Return (), st3\<lparr>logged := logged st3 @ (case r of Throw e \<Rightarrow> [e] | Return _ \<Rightarrow> []),
                           isUriBinding := False\<rparr>)"
    if "\<forall>e. r = Throw e \<longrightarrow> jsonStringify e = Return () \<and> logger e = Return ()"
    using assms that by (cases r) (simp_all add: uriBinding_def)
  ultimately show ?thesis
    by (simp add: en)
qed

text \<open>
  The callback throws a value that can be turned into text and the logger returns:
  the call returns normally, the error is logged, the flag is reset. The symbol \<open>U\<close>,
  whose only location was URI-bound, is gone from the global table, and \<open>K\<close> has kept
  its location.
\<close>

theorem uriBinding_isolates_callback_witness:
  "uriBinding quietLogger throwingCallback boundAndUnbound
     = (Return (), (uriBindingEnter boundAndUnbound)\<lparr>logged := [Raised ''e''], isUriBinding := False\<rparr>)
   \<and> isUriBinding (uriBindingEnter boundAndUnbound) = True
   \<and> global (uriBindingEnter boundAndUnbound) = [(''c'', [(''K'', Sym 1 None)])]
   \<and> locations (heap (objects (uriBindingEnter boundAndUnbound)) 0) Definition = Some []
   \<and> locations (heap (objects (uriBindingEnter boundAndUnbound)) 1) Reference
       = Some [\<lparr>uri = ''file:///k'', range' = Some (0, 1), fullRange = None, isUriBound = False,
                accessType = None, fromDefaultLibrary = None\<rparr>]"
proof -
  have c: "throwingCallback (uriBindingEnter boundAndUnbound)
      = (Throw (Raised ''e''), uriBindingEnter boundAndUnbound)"
    by (simp add: throwingCallback_def)
  have g: "global (uriBindingEnter boundAndUnbound) = [(''c'', [(''K'', Sym 1 None)])]"
    by (simp add: uriBindingEnter_def boundAndUnbound_def removeLocations_def SymbolUsageTypes_def
        trim_defs blankCell_def trigger.simps publish_def aliasOf_def Let_def)
  have l: "logged (uriBindingEnter boundAndUnbound) = []"
    by (simp add: uriBindingEnter_def boundAndUnbound_def split: prod.splits)
  have s: "symbolsOfTable (global boundAndUnbound) = [0, 1]"
    by (simp add: boundAndUnbound_def symbolsOfTable_def)
  have h0: "locations (heap (objects boundAndUnbound) 0) Definition
      = Some [\<lparr>uri = ''file:///u'', range' = None, fullRange = None, isUriBound = True,
                accessType = None, fromDefaultLibrary = None\<rparr>]"
    by (simp add: boundAndUnbound_def)
  have h1: "locations (heap (objects boundAndUnbound) 1) Reference
      = Some [\<lparr>uri = ''file:///k'', range' = Some (0, 1), fullRange = None, isUriBound = False,
                accessType = None, fromDefaultLibrary = None\<rparr>]"
    by (simp add: boundAndUnbound_def)
  from uriBinding_isolates_callback[where fn = throwingCallback and logger = quietLogger, OF c]
    g l s h0 h1
  show ?thesis by (simp add: quietLogger_def)
qed

text \<open>
  C8 as stated fails. The URI-bound location of \<open>F\<close>, a symbol in the first frame of a
  document, is still there after \<^verbatim>\<open>uriBinding\<close> has run. And when the callback throws
  an object that refers to itself, the \<open>TypeError\<close> of \<^verbatim>\<open>JSON.stringify\<close> leaves
  \<^verbatim>\<open>uriBinding\<close> and nothing is logged.
\<close>

theorem uriBinding_frame_location_counterexample:
  "fst (uriBinding quietLogger returningCallback boundInFrame) = Return ()
   \<and> arrays (snd (uriBinding quietLogger returningCallback boundInFrame)) 0
       = [[(''c'', [(''F'', Sym 0 None)])]]
   \<and> locations (heap (objects (snd (uriBinding quietLogger returningCallback boundInFrame))) 0)
         Definition
       = Some [\<lparr>uri = ''file:///d'', range' = Some (0, 0), fullRange = None,
                isUriBound = True, accessType = None, fromDefaultLibrary = None\<rparr>]
   \<and> fst (uriBinding quietLogger circularCallback boundInFrame)
       = Throw (TypeError ''Converting circular structure to JSON'')
   \<and> logged (snd (uriBinding quietLogger circularCallback boundInFrame)) = []"
  by (simp add: uriBinding_def uriBindingEnter_def returningCallback_def circularCallback_def
      boundInFrame_def removeLocations_def)

section \<open>The alias count\<close>

lemma aliasEntered_state:
  "global aliasEntered = [(''c'', [(''T'', Sym 0 None), (''A'', Sym 1 None)])]
   \<and> aliasAmount (heap (objects aliasEntered) 0) = Some 1
   \<and> aliasCount aliasEntered 0 = 1"
  by (simp add: aliasEntered_def run_defs scenario_defs aliasCount_def presentSymbols_def
      symbolsOfTable_def)

text \<open>
  C1 asks that the alias count of every present symbol, when it is defined, is the
  number of present symbols whose \<^verbatim>\<open>relations.aliasOf\<close> is that symbol. The code breaks
  it. After the three enters the count of \<open>T\<close> is 1, for its one alias \<open>A\<close>. Clearing the document of \<open>A\<close> removes the location of \<open>A\<close> and trims it:
  \<^verbatim>\<open>trimMap\<close> decrements the count of \<open>T\<close> itself and then publishes the removal, whose
  subscriber decrements it again. \<open>T\<close> is still present, no present symbol is an alias
  of it, and its count is \<open>-1\<close>.
\<close>

theorem clear_double_decrement:
  "global (clear ''file:///a'' aliasEntered) = [(''c'', [(''T'', Sym 0 None)])]
   \<and> aliasAmount (heap (objects (clear ''file:///a'' aliasEntered)) 0) = Some (- 1)
   \<and> aliasCount (clear ''file:///a'' aliasEntered) 0 = 0"
  by (simp add: aliasEntered_def run_defs scenario_defs aliasCount_def presentSymbols_def
      symbolsOfTable_def
      clear_def removeLocations_def SymbolUsageTypes_def trim_defs)

end
